theory Spec2Isabelle
  imports Complex_Main
begin

section \<open>Python values, errors and library functions\<close>

text \<open>
  The benchmark is Python. Its unbounded integers are \<open>int\<close>, its strings are
  \<open>string\<close>, and a float is the \<open>real\<close> number that the double denotes. The clock
  readings and the latencies are given by the environment and their arithmetic is exact;
  the division that gives the error rate is rounded to the nearest double, as Python
  does; the percentiles are the values returned by \<open>numpy.percentile\<close>, a parameter of
  the model. Every exception that the modelled code can raise is a value of
  \<open>py_error\<close>; a function that may raise returns \<open>py_error + 'a\<close>.
\<close>

datatype py_error = ZeroDivisionError | ValueError | ArgumentTypeError

text \<open>The values stored in the metrics dictionary: integers and formatted strings.\<close>

datatype py_value = PInt int | PStr string

text \<open>A Python dict keeps insertion order; all keys written by the code are distinct.\<close>

type_synonym metrics = "(string \<times> py_value) list"

subsection \<open>\<open>str.upper\<close> (ASCII letters)\<close>

definition upper_char :: "char \<Rightarrow> char" where
  "upper_char c =
     (case map_of (zip ''abcdefghijklmnopqrstuvwxyz'' ''ABCDEFGHIJKLMNOPQRSTUVWXYZ'') c of
        Some u \<Rightarrow> u
      | None \<Rightarrow> c)"

definition upper :: "string \<Rightarrow> string" where
  "upper s = map upper_char s"

subsection \<open>The format specification \<open>.2f\<close>\<close>

text \<open>
  \<open>f"{x:.2f}"\<close> rounds the exact value of the double \<open>x\<close> to the nearest hundredth,
  ties to the even digit, and prints the sign, the integer digits, a point and two
  decimals.
\<close>

definition digit_char :: "nat \<Rightarrow> char" where
  "digit_char d = ''0123456789'' ! d"

function str_nat :: "nat \<Rightarrow> string" where
  "str_nat n = (if n < 10 then [digit_char n] else str_nat (n div 10) @ [digit_char (n mod 10)])"
  by pat_completeness auto
termination
  by (relation "measure (\<lambda>n. n)") auto

definition round_half_even :: "real \<Rightarrow> int" where
  "round_half_even x =
     (let f = \<lfloor>x\<rfloor>; r = x - of_int f
      in if r < 1 / 2 then f
         else if 1 / 2 < r then f + 1
         else if even f then f else f + 1)"

definition format_2f :: "real \<Rightarrow> string" where
  "format_2f x =
     (let n = nat (round_half_even (\<bar>x\<bar> * 100))
      in (if x < 0 then ''-'' else []) @ str_nat (n div 100) @ ''.'' @
         [digit_char (n div 10 mod 10), digit_char (n mod 10)])"

text \<open>The strings of that shape: an optional sign, digits, a point, two digits.\<close>

definition is_digit :: "char \<Rightarrow> bool" where
  "is_digit c = (c \<in> set ''0123456789'')"

definition unsigned_two_decimals :: "string \<Rightarrow> bool" where
  "unsigned_two_decimals u =
     (let n = length u
      in 4 \<le> n \<and> list_all is_digit (take (n - 3) u) \<and> u ! (n - 3) = CHR ''.'' \<and>
         list_all is_digit (drop (n - 2) u))"

definition two_decimals :: "string \<Rightarrow> bool" where
  "two_decimals s =
     (case s of
        [] \<Rightarrow> False
      | c # cs \<Rightarrow> if c = CHR ''-'' then unsigned_two_decimals cs else unsigned_two_decimals s)"

subsection \<open>The division of two integers\<close>

text \<open>
  \<open>a / b\<close> on two Python integers is the double nearest to the exact quotient, ties
  to the even significand. For a quotient \<open>x\<close> with \<open>0 \<le> x < 2 ^ 53\<close> (here it is at most
  1): a double has 53 significant bits, so the doubles around \<open>x\<close> are the multiples of
  \<open>1 / 2 ^ k\<close>, where \<open>k\<close> is the least number with \<open>2 ^ 52 \<le> x * 2 ^ k\<close>, and at most
  1074 (the subnormal doubles). \<open>binade_shift x 0\<close> is that \<open>k\<close>.
\<close>

function binade_shift :: "real \<Rightarrow> nat \<Rightarrow> nat" where
  "binade_shift x k =
     (if 0 < x \<and> k < 1074 \<and> x * 2 ^ k < 2 ^ 52 then binade_shift x (k + 1) else k)"
  by pat_completeness auto
termination
  by (relation "measure (\<lambda>(x, k). 1074 - k)") auto

definition double_round :: "real \<Rightarrow> real" where
  "double_round x =
     (let k = binade_shift x 0
      in real_of_int (round_half_even (x * 2 ^ k)) / 2 ^ k)"

text \<open>The divisor is not zero where \<open>true_divide\<close> is called.\<close>

definition true_divide :: "nat \<Rightarrow> nat \<Rightarrow> real" where
  "true_divide a b = double_round (real a / real b)"

subsection \<open>\<open>numpy.percentile\<close>, default method (linear interpolation)\<close>

text \<open>
  For an array of \<open>n > 0\<close> values and \<open>0 \<le> q \<le> 100\<close>: the array is sorted, the virtual
  index is \<open>(n - 1) * q / 100\<close>, and the result interpolates linearly between the
  elements at the floor of the virtual index and at the next index (clipped to the
  last one). \<open>LoadGenerator.run\<close> calls it on non-empty arrays only. \<open>percentile\<close> is
  that method in exact arithmetic; the function that the installed numpy computes, in
  floating point, is the parameter \<open>np_percentile\<close> of \<open>reduce\<close> below.
\<close>

definition percentile :: "real list \<Rightarrow> real \<Rightarrow> real" where
  "percentile a q =
     (let arr = sort a;
          n = length arr;
          virtual_index = real (n - 1) * (q / 100);
          previous = nat \<lfloor>virtual_index\<rfloor>;
          next = min (previous + 1) (n - 1);
          gamma = virtual_index - real previous
      in arr ! previous + gamma * (arr ! next - arr ! previous))"

section \<open>\<open>LoadGenerator\<close>\<close>

text \<open>
  The fields of the class, as \<open>__init__\<close> stores them. \<open>data\<close> and \<open>headers\<close> default
  to \<open>None\<close>; \<open>avg_jitter\<close> is given in milliseconds and stored in seconds.
\<close>

record LoadGenerator =
  url :: string
  concurrency :: int
  duration :: int
  request_type :: string
  headers :: "(string \<times> string) list option"
  data :: "string option"
  mode :: string
  avg_jitter :: real

definition LoadGenerator_init ::
  "string \<Rightarrow> int \<Rightarrow> int \<Rightarrow> string \<Rightarrow> (string \<times> string) list option \<Rightarrow> string option \<Rightarrow>
   string \<Rightarrow> int \<Rightarrow> LoadGenerator" where
  "LoadGenerator_init u c d rt h dt m aj =
     \<lparr> url = u, concurrency = c, duration = d, request_type = upper rt,
       headers = h, data = dt, mode = m, avg_jitter = real_of_int aj / 1000 \<rparr>"

subsection \<open>The environment of one run\<close>

text \<open>
  What the event loop, the clocks, the random generator and the transport present to
  the workers is a sequence of events, consumed in order:
  \<^item> \<open>Start t\<close>: \<open>run\<close> reads \<open>time.time() = t\<close> at its first line;
  \<^item> \<open>Check w now rnd\<close>: worker \<open>w\<close> evaluates its loop condition with
    \<open>time.time() = now\<close>; when the body is entered, \<open>rnd\<close> is the standard draw of the
    random generator that the pacing uses (a standard uniform draw in \<open>[0, 1)\<close> for
    \<open>numpy.random.uniform\<close>, a standard exponential draw for
    \<open>numpy.random.exponential\<close>);
  \<^item> \<open>Finish w t0 out\<close>: the request of worker \<open>w\<close>, dispatched when
    \<open>time.monotonic() = t0\<close>, ends with the outcome \<open>out\<close>.
\<close>

datatype transport_outcome =
    Response nat real
  | Raises

datatype event =
    Start real
  | Check nat real real
  | Finish nat real transport_outcome

text \<open>The request handed to \<open>session.request\<close>.\<close>

record http_request =
  req_method :: string
  req_url :: string
  req_data :: "string option"

datatype worker_state = Ready | InFlight | Stopped

text \<open>
  The two shared lists of \<open>run\<close>, the state of every worker task, and the requests
  handed to the transport so far.
\<close>

record pool =
  results :: "real list"
  errors :: "int list"
  workers :: "worker_state list"
  sent :: "http_request list"

subsection \<open>\<open>_send_request\<close>\<close>

text \<open>
  The delay that \<open>_send_request\<close> sleeps before the request.
  \<open>numpy.random.uniform(low, high)\<close> is \<open>low + (high - low) * rnd\<close>;
  \<open>numpy.random.exponential(scale)\<close> is \<open>scale * rnd\<close> and raises \<open>ValueError\<close> for a
  negative scale. Any other mode does not sleep.
\<close>

definition pacer_delay :: "LoadGenerator \<Rightarrow> real \<Rightarrow> py_error + real" where
  "pacer_delay lg rnd =
     (if mode lg = ''uniform'' then Inr (0 + (2 * avg_jitter lg - 0) * rnd)
      else if mode lg = ''exponential'' then
        (if avg_jitter lg < 0 then Inl ValueError else Inr (avg_jitter lg * rnd))
      else Inr 0)"

definition issued_request :: "LoadGenerator \<Rightarrow> http_request" where
  "issued_request lg =
     \<lparr> req_method = request_type lg, req_url = url lg, req_data = data lg \<rparr>"

text \<open>
  The value returned by \<open>_send_request\<close>: the latency in milliseconds when the
  response was read (whatever its status), and \<open>-1.0\<close> when the transport raised.
\<close>

definition send_request_latency :: "real \<Rightarrow> transport_outcome \<Rightarrow> real" where
  "send_request_latency start_time out =
     (case out of
        Response status t1 \<Rightarrow> (t1 - start_time) * 1000
      | Raises \<Rightarrow> - 1)"

subsection \<open>\<open>_worker\<close>\<close>

definition record_sample :: "real \<Rightarrow> pool \<Rightarrow> pool" where
  "record_sample latency st =
     (if latency \<ge> 0 then st\<lparr> results := results st @ [latency] \<rparr>
      else st\<lparr> errors := errors st @ [1] \<rparr>)"

text \<open>
  One step of one worker. \<open>None\<close>: the event is not one this worker can take in its
  state (the sequence is not an execution of the program).
\<close>

fun worker_step :: "LoadGenerator \<Rightarrow> real \<Rightarrow> pool \<Rightarrow> event \<Rightarrow> (py_error + pool) option" where
  "worker_step lg end_time st (Check w now rnd) =
     (if w < length (workers st) \<and> workers st ! w = Ready then
        (if now < end_time then
           (case pacer_delay lg rnd of
              Inl e \<Rightarrow> Some (Inl e)
            | Inr delay \<Rightarrow> Some (Inr (st\<lparr> workers := (workers st)[w := InFlight] \<rparr>)))
         else Some (Inr (st\<lparr> workers := (workers st)[w := Stopped] \<rparr>)))
      else None)"
| "worker_step lg end_time st (Finish w t0 out) =
     (if w < length (workers st) \<and> workers st ! w = InFlight then
        Some (Inr (record_sample (send_request_latency t0 out)
                (st\<lparr> workers := (workers st)[w := Ready],
                     sent := sent st @ [issued_request lg] \<rparr>)))
      else None)"
| "worker_step lg end_time st (Start t) = None"

subsection \<open>\<open>run\<close>\<close>

definition all_stopped :: "pool \<Rightarrow> bool" where
  "all_stopped st = list_all (\<lambda>w. w = Stopped) (workers st)"

text \<open>
  \<open>asyncio.gather\<close> over the worker tasks: events are consumed until every worker has
  stopped or one has raised. The result carries the events not consumed. \<open>None\<close>: the
  sequence ends, or does not fit, before the workers have all stopped.
\<close>

fun gather :: "LoadGenerator \<Rightarrow> real \<Rightarrow> pool \<Rightarrow> event list \<Rightarrow> ((py_error + pool) \<times> event list) option" where
  "gather lg end_time st [] = (if all_stopped st then Some (Inr st, []) else None)"
| "gather lg end_time st (e # es) =
     (if all_stopped st then Some (Inr st, e # es)
      else (case worker_step lg end_time st e of
              None \<Rightarrow> None
            | Some (Inl err) \<Rightarrow> Some (Inl err, es)
            | Some (Inr st') \<Rightarrow> gather lg end_time st' es))"

definition init_pool :: "LoadGenerator \<Rightarrow> pool" where
  "init_pool lg =
     \<lparr> results = [], errors = [], workers = replicate (nat (concurrency lg)) Ready, sent = [] \<rparr>"

definition percentiles :: "nat list" where
  "percentiles = [50, 75, 95, 99]"

definition percentile_key :: "nat \<Rightarrow> string" where
  "percentile_key p = ''p'' @ str_nat p @ '' Latency (ms)''"

text \<open>
  Lines 142 to 161: the reduction of the two lists to the metrics dictionary.
  \<open>np_percentile\<close> is \<open>numpy.percentile\<close>.
\<close>

definition reduce :: "(real list \<Rightarrow> real \<Rightarrow> real) \<Rightarrow> LoadGenerator \<Rightarrow> pool \<Rightarrow> py_error + metrics" where
  "reduce np_percentile lg st =
     (let successful_requests = length (results st);
          error_count = length (errors st)
      in if successful_requests + error_count = 0 then Inl ZeroDivisionError
         else
           (let error_rate = true_divide error_count (successful_requests + error_count);
                latencies = results st
            in Inr ([(''Concurrency Level'', PInt (concurrency lg)),
                     (''Duration (s)'', PInt (duration lg)),
                     (''Successful Requests'', PInt (int successful_requests)),
                     (''Total Errors'', PInt (int error_count)),
                     (''Error Rate (%)'', PStr (format_2f error_rate))] @
                    (if length latencies > 0
                     then map (\<lambda>p. (percentile_key p, PStr (format_2f (np_percentile latencies (real p)))))
                            percentiles
                     else []))))"

text \<open>
  Lines 132 to 140: the deadline is fixed from the clock read at the start, the
  workers are created and awaited. The result is the pool once every worker has stopped.
\<close>

definition collect :: "LoadGenerator \<Rightarrow> event list \<Rightarrow> ((py_error + pool) \<times> event list) option" where
  "collect lg evs =
     (case evs of
        Start start_time # es \<Rightarrow>
          (let end_time = start_time + real_of_int (duration lg)
           in gather lg end_time (init_pool lg) es)
      | _ \<Rightarrow> None)"

definition run ::
  "(real list \<Rightarrow> real \<Rightarrow> real) \<Rightarrow> LoadGenerator \<Rightarrow> event list \<Rightarrow>
   ((py_error + metrics) \<times> event list) option" where
  "run np_percentile lg evs =
     (case collect lg evs of
        None \<Rightarrow> None
      | Some (Inl err, rest) \<Rightarrow> Some (Inl err, rest)
      | Some (Inr st, rest) \<Rightarrow> Some (reduce np_percentile lg st, rest))"

section \<open>\<open>HTTPBenchmark\<close>\<close>

record HTTPBenchmark =
  hb_url :: string
  hb_duration :: int
  hb_concurrency_levels :: "int list"
  hb_request_type :: string
  hb_headers :: "(string \<times> string) list option"
  hb_data :: "string option"
  hb_mode :: string
  hb_avg_jitter :: int

definition HTTPBenchmark_init ::
  "string \<Rightarrow> int \<Rightarrow> int list \<Rightarrow> string \<Rightarrow> (string \<times> string) list option \<Rightarrow> string option \<Rightarrow>
   string \<Rightarrow> int \<Rightarrow> HTTPBenchmark" where
  "HTTPBenchmark_init u d cl rt h dt m aj =
     \<lparr> hb_url = u, hb_duration = d, hb_concurrency_levels = cl, hb_request_type = upper rt,
       hb_headers = h, hb_data = dt, hb_mode = m, hb_avg_jitter = aj \<rparr>"

definition generator :: "HTTPBenchmark \<Rightarrow> int \<Rightarrow> LoadGenerator" where
  "generator b c =
     LoadGenerator_init (hb_url b) c (hb_duration b) (hb_request_type b) (hb_headers b)
       (hb_data b) (hb_mode b) (hb_avg_jitter b)"

text \<open>
  The loop of \<open>run_tests\<close> over the concurrency levels still to run, with the list
  \<open>results\<close> built so far. An exception of a run ends the loop.
\<close>

fun run_tests_loop ::
  "(real list \<Rightarrow> real \<Rightarrow> real) \<Rightarrow> HTTPBenchmark \<Rightarrow> metrics list \<Rightarrow> int list \<Rightarrow> event list \<Rightarrow>
   ((py_error + metrics list) \<times> event list) option" where
  "run_tests_loop np_percentile b res [] evs = Some (Inr res, evs)"
| "run_tests_loop np_percentile b res (c # cs) evs =
     (case run np_percentile (generator b c) evs of
        None \<Rightarrow> None
      | Some (Inl err, rest) \<Rightarrow> Some (Inl err, rest)
      | Some (Inr m, rest) \<Rightarrow> run_tests_loop np_percentile b (res @ [m]) cs rest)"

definition run_tests ::
  "(real list \<Rightarrow> real \<Rightarrow> real) \<Rightarrow> HTTPBenchmark \<Rightarrow> event list \<Rightarrow>
   ((py_error + metrics list) \<times> event list) option" where
  "run_tests np_percentile b evs =
     run_tests_loop np_percentile b [] (hb_concurrency_levels b) evs"

section \<open>The command line: the request body\<close>

text \<open>
  Lines 46 to 54 of \<open>fire_bench.py\<close>. \<open>args_data\<close> and \<open>args_data_binary\<close> are the two
  options (\<open>None\<close> when not given), \<open>files\<close> maps the path of every regular file to its
  contents.
\<close>

definition truthy :: "string option \<Rightarrow> bool" where
  "truthy v = (case v of None \<Rightarrow> False | Some s \<Rightarrow> s \<noteq> [])"

definition process_data ::
  "string \<Rightarrow> string option \<Rightarrow> string option \<Rightarrow> (string \<rightharpoonup> string) \<Rightarrow> py_error + string" where
  "process_data args_request_type args_data args_data_binary files =
     (if upper args_request_type \<noteq> ''GET'' then
        (if truthy args_data then
           (case args_data of Some d \<Rightarrow> Inr d | None \<Rightarrow> Inr [])
         else if truthy args_data_binary then
           (case args_data_binary of
              Some path \<Rightarrow>
                (case files path of
                   None \<Rightarrow> Inl ArgumentTypeError
                 | Some contents \<Rightarrow> Inr contents)
            | None \<Rightarrow> Inr [])
         else Inr [])
      else Inr [])"

section \<open>Observations on event sequences\<close>

text \<open>An attempt is completed when \<open>_send_request\<close> returns: a \<open>Finish\<close> event.\<close>

fun is_finish :: "event \<Rightarrow> bool" where
  "is_finish (Finish w t0 out) = True"
| "is_finish (Check w now rnd) = False"
| "is_finish (Start t) = False"

definition completed_attempts :: "event list \<Rightarrow> nat" where
  "completed_attempts evs = length (filter is_finish evs)"

text \<open>
  \<open>time.monotonic()\<close> cannot go backwards: the reading after the response is not
  below the reading before the request.
\<close>

definition monotonic_reading :: "real \<Rightarrow> transport_outcome \<Rightarrow> bool" where
  "monotonic_reading t0 out = (case out of Response status t1 \<Rightarrow> t0 \<le> t1 | Raises \<Rightarrow> True)"

text \<open>A deadline check whose wall clock does not read earlier than \<open>t\<close>.\<close>

fun clock_not_before :: "real \<Rightarrow> event \<Rightarrow> bool" where
  "clock_not_before t (Check w now rnd) = (t \<le> now)"
| "clock_not_before t (Finish w t0 out) = True"
| "clock_not_before t (Start t') = True"

section \<open>Properties of the rounding and of the formatting\<close>

lemma round_half_even_bounds:
  "\<lfloor>x\<rfloor> \<le> round_half_even x \<and> round_half_even x \<le> \<lfloor>x\<rfloor> + 1"
  by (simp add: round_half_even_def Let_def)

lemma round_half_even_mono:
  assumes "x \<le> y"
  shows "round_half_even x \<le> round_half_even y"
proof (cases "\<lfloor>x\<rfloor> = \<lfloor>y\<rfloor>")
  case True
  with assms show ?thesis by (auto simp: round_half_even_def Let_def)
next
  case False
  with assms have "\<lfloor>x\<rfloor> + 1 \<le> \<lfloor>y\<rfloor>" using floor_mono[OF assms] by linarith
  with round_half_even_bounds[of x] round_half_even_bounds[of y] show ?thesis by linarith
qed

lemma round_half_even_of_int: "round_half_even (of_int n) = n"
  by (simp add: round_half_even_def)

lemma round_half_even_error: "\<bar>real_of_int (round_half_even y) - y\<bar> \<le> 1 / 2"
proof -
  have "of_int \<lfloor>y\<rfloor> \<le> y" "y < of_int \<lfloor>y\<rfloor> + 1" by linarith+
  then show ?thesis by (auto simp: round_half_even_def Let_def)
qed

declare binade_shift.simps [simp del]

lemma binade_shift_reaches:
  "0 < x \<Longrightarrow> k \<le> 1074 \<Longrightarrow>
   binade_shift x k = 1074 \<or> 2 ^ 52 \<le> x * 2 ^ binade_shift x k"
proof (induction x k rule: binade_shift.induct)
  case (1 x k)
  show ?case
  proof (cases "0 < x \<and> k < 1074 \<and> x * 2 ^ k < 2 ^ 52")
    case True
    then have "binade_shift x k = binade_shift x (k + 1)"
      by (subst binade_shift.simps) (simp only: if_True simp_thms)
    moreover from True "1.prems" have "binade_shift x (k + 1) = 1074 \<or>
        2 ^ 52 \<le> x * 2 ^ binade_shift x (k + 1)"
      by (intro "1.IH") simp_all
    ultimately show ?thesis by simp
  next
    case False
    then have e: "binade_shift x k = k"
      by (subst binade_shift.simps) (simp only: if_False simp_thms)
    from False "1.prems" have "k = 1074 \<or> 2 ^ 52 \<le> x * 2 ^ k" by auto
    with e show ?thesis by simp
  qed
qed

lemma double_round_zero: "double_round 0 = 0"
  by (simp add: double_round_def round_half_even_def binade_shift.simps)

lemma double_round_one: "double_round 1 = 1"
  by (simp add: double_round_def round_half_even_def binade_shift.simps)

lemma double_round_half: "double_round (1 / 2) = 1 / 2"
  by (simp add: double_round_def round_half_even_def binade_shift.simps)

lemma double_round_unit:
  assumes "0 \<le> x" "x \<le> 1"
  shows "0 \<le> double_round x \<and> double_round x \<le> 1"
proof -
  define k where "k = binade_shift x 0"
  have p: "(0::real) < 2 ^ k" by simp
  have z: "round_half_even 0 = 0" by (simp add: round_half_even_def)
  from assms(1) have "round_half_even 0 \<le> round_half_even (x * 2 ^ k)"
    by (intro round_half_even_mono) simp
  then have lo: "0 \<le> round_half_even (x * 2 ^ k)" by (simp only: z)
  from assms(2) have "x * 2 ^ k \<le> 1 * 2 ^ k" by (intro mult_right_mono) simp_all
  then have "x * 2 ^ k \<le> of_int (2 ^ k)" by simp
  then have "round_half_even (x * 2 ^ k) \<le> round_half_even (of_int (2 ^ k))"
    by (rule round_half_even_mono)
  then have "round_half_even (x * 2 ^ k) \<le> 2 ^ k" by (simp only: round_half_even_of_int)
  then have "real_of_int (round_half_even (x * 2 ^ k)) \<le> real_of_int (2 ^ k)"
    by (simp only: of_int_le_iff)
  then have hi: "real_of_int (round_half_even (x * 2 ^ k)) \<le> 2 ^ k" by simp
  from lo hi p show ?thesis
    by (simp add: double_round_def k_def[symmetric] divide_le_eq)
qed

lemma double_round_error:
  assumes "0 \<le> x" "x \<le> 1"
  shows "\<bar>double_round x - x\<bar> \<le> 1 / 2 ^ 54"
proof -
  consider "x = 0" | "x = 1" | "0 < x" "x < 1" using assms by linarith
  then show ?thesis
  proof cases
    case 1
    then show ?thesis by (simp add: double_round_zero)
  next
    case 2
    then show ?thesis by (simp add: double_round_one)
  next
    case 3
    define k where "k = binade_shift x 0"
    from binade_shift_reaches[OF 3(1), of 0] have "k = 1074 \<or> 2 ^ 52 \<le> x * 2 ^ k"
      by (simp add: k_def)
    then have k: "53 \<le> k"
    proof
      assume "k = 1074" then show ?thesis by simp
    next
      assume a: "2 ^ 52 \<le> x * 2 ^ k"
      from 3(2) have "x * 2 ^ k < 1 * 2 ^ k" by (intro mult_strict_right_mono) simp_all
      with a have "(2::real) ^ 52 < 2 ^ k" by linarith
      then have "52 < k" by (simp only: power_strict_increasing_iff)
      then show ?thesis by simp
    qed
    then have pw: "(2::real) ^ 53 \<le> 2 ^ k" by (intro power_increasing) simp_all
    have "double_round x - x = (real_of_int (round_half_even (x * 2 ^ k)) - x * 2 ^ k) / 2 ^ k"
      by (simp add: double_round_def k_def[symmetric] diff_divide_distrib)
    then have "\<bar>double_round x - x\<bar> =
        \<bar>real_of_int (round_half_even (x * 2 ^ k)) - x * 2 ^ k\<bar> / 2 ^ k"
      by simp
    also have "\<dots> \<le> (1 / 2) / 2 ^ k"
      using round_half_even_error[of "x * 2 ^ k"] by (intro divide_right_mono) simp_all
    also have "\<dots> \<le> (1 / 2) / 2 ^ 53"
      using pw by (intro divide_left_mono) simp_all
    finally show ?thesis by simp
  qed
qed

lemma true_divide_same: "0 < n \<Longrightarrow> true_divide n n = 1"
  by (simp add: true_divide_def double_round_one)

lemma true_divide_fraction:
  assumes "0 < s + e"
  shows "0 \<le> true_divide e (s + e) \<and> true_divide e (s + e) \<le> 1 \<and>
         \<bar>true_divide e (s + e) - real e / real (s + e)\<bar> \<le> 1 / 2 ^ 54"
proof -
  from assms have "0 \<le> real e / real (s + e) \<and> real e / real (s + e) \<le> 1"
    by (simp add: divide_le_eq)
  with double_round_unit double_round_error show ?thesis
    unfolding true_divide_def by blast
qed

lemma digit_char_is_digit: "d < 10 \<Longrightarrow> is_digit (digit_char d)"
proof -
  assume "d < 10"
  then have "d < length ''0123456789''" by simp
  then have "''0123456789'' ! d \<in> set ''0123456789''" by (rule nth_mem)
  then show ?thesis by (simp only: is_digit_def digit_char_def)
qed

lemma is_digit_not_minus: "is_digit c \<Longrightarrow> c \<noteq> CHR ''-''"
  by (auto simp: is_digit_def)

lemma str_nat_digits: "list_all is_digit (str_nat n) \<and> str_nat n \<noteq> []"
proof (induction n rule: str_nat.induct)
  case (1 n)
  show ?case
  proof (cases "n < 10")
    case True
    then have "str_nat n = [digit_char n]" by (subst str_nat.simps) simp
    with True show ?thesis by (simp add: digit_char_is_digit)
  next
    case False
    then have "str_nat n = str_nat (n div 10) @ [digit_char (n mod 10)]"
      by (subst str_nat.simps) simp
    with False "1.IH" show ?thesis by (simp add: digit_char_is_digit)
  qed
qed

lemma unsigned_two_decimals_append:
  assumes "list_all is_digit ds" "ds \<noteq> []" "is_digit d1" "is_digit d2"
  shows "unsigned_two_decimals (ds @ ''.'' @ [d1, d2])"
proof -
  have n: "length (ds @ ''.'' @ [d1, d2]) = length ds + 3" by simp
  from assms(2) have "1 \<le> length ds" by (cases ds) simp_all
  with assms show ?thesis
    unfolding unsigned_two_decimals_def Let_def n
    by (simp add: nth_append)
qed

lemma format_2f_two_decimals: "two_decimals (format_2f x)"
proof -
  define n where "n = nat (round_half_even (\<bar>x\<bar> * 100))"
  define ds where "ds = str_nat (n div 100)"
  define u where "u = ds @ ''.'' @ [digit_char (n div 10 mod 10), digit_char (n mod 10)]"
  have ds: "list_all is_digit ds" "ds \<noteq> []" using str_nat_digits[of "n div 100"]
    by (simp_all add: ds_def)
  have uu: "unsigned_two_decimals u" unfolding u_def
    by (rule unsigned_two_decimals_append[OF ds]) (simp_all add: digit_char_is_digit)
  from ds obtain c cs where c: "ds = c # cs" "is_digit c" by (cases ds) auto
  then have hd: "u = c # (cs @ ''.'' @ [digit_char (n div 10 mod 10), digit_char (n mod 10)])"
    by (simp add: u_def)
  have f: "format_2f x = (if x < 0 then ''-'' else []) @ u"
    by (simp add: format_2f_def Let_def n_def ds_def u_def)
  show ?thesis
  proof (cases "x < 0")
    case True
    with f uu show ?thesis by (simp add: two_decimals_def)
  next
    case False
    with f have "format_2f x = u" by simp
    with hd uu is_digit_not_minus[OF c(2)] show ?thesis
      by (simp add: two_decimals_def)
  qed
qed

lemma format_2f_zero: "format_2f 0 = ''0.00''"
  by (simp add: format_2f_def round_half_even_def digit_char_def)

lemma format_2f_half: "format_2f (1 / 2) = ''0.50''"
  by (simp add: format_2f_def round_half_even_def digit_char_def)

lemma format_2f_one: "format_2f 1 = ''1.00''"
  by (simp add: format_2f_def round_half_even_def digit_char_def)

lemma format_2f_250: "format_2f 250 = ''250.00''"
  by (simp add: format_2f_def round_half_even_def digit_char_def)

text \<open>
  The quotient 39 / 40 is not a double: the nearest double is below 0.975, and is
  printed \<open>0.97\<close> (the exact quotient would be printed \<open>0.98\<close>).
\<close>

lemma format_2f_39_40: "format_2f (true_divide 39 40) = ''0.97''"
  by (simp add: true_divide_def double_round_def round_half_even_def format_2f_def
      digit_char_def binade_shift.simps)

lemma true_divide_half: "true_divide 1 2 = 1 / 2"
  using double_round_half by (simp add: true_divide_def)

lemma true_divide_zero: "true_divide 0 n = 0"
  by (simp add: true_divide_def double_round_zero)

section \<open>Properties of the reduction\<close>

lemma reduce_no_samples:
  "results st = [] \<Longrightarrow> errors st = [] \<Longrightarrow> reduce np lg st = Inl ZeroDivisionError"
  by (simp add: reduce_def)

lemma gather_all_stopped:
  "all_stopped st \<Longrightarrow> gather lg end_time st evs = Some (Inr st, evs)"
  by (cases evs) simp_all

text \<open>
  C1. A run that observes no attempt at all divides by zero at line 144: it does not
  report an error rate of 0 or "n/a", it raises \<open>ZeroDivisionError\<close>. Two such runs:
  a concurrency of 0 (no worker is created), and one worker with a duration of 0 whose
  first deadline check fails.
\<close>

theorem run_zero_attempts_raises:
  "run np (LoadGenerator_init ''http://example.com'' 0 1 ''GET'' None None ''burst'' 10)
       [Start 5]
     = Some (Inl ZeroDivisionError, []) \<and>
   run np (LoadGenerator_init ''http://example.com'' 1 0 ''GET'' None None ''burst'' 10)
       [Start 5, Check 0 5 0]
     = Some (Inl ZeroDivisionError, [])"
  by (simp add: run_def collect_def LoadGenerator_init_def init_pool_def all_stopped_def
      reduce_def)

section \<open>Properties of the request\<close>

lemma upper_GET: "upper ''GET'' = ''GET''"
  by (simp add: upper_def upper_char_def)

lemma upper_get: "upper ''get'' = ''GET''"
  by (simp add: upper_def upper_char_def)

lemma issued_request_data:
  "req_data (issued_request (LoadGenerator_init u c d rt h dt m aj)) = dt"
  by (simp add: issued_request_def LoadGenerator_init_def)

lemma process_data_GET:
  "upper rt = ''GET'' \<Longrightarrow> process_data rt d db files = Inr []"
  by (simp add: process_data_def)

text \<open>
  C3. The request of a GET run carries the configured body: \<open>_send_request\<close> passes
  \<open>data\<close> to the transport whatever the method is. Here one worker of a GET run with
  the body \<open>payload\<close> makes one attempt, and the request handed to the transport has
  that body.
\<close>

theorem get_request_carries_body:
  "gather (LoadGenerator_init ''http://example.com'' 1 1 ''GET'' None (Some ''payload'') ''burst'' 10)
       1
       (init_pool (LoadGenerator_init ''http://example.com'' 1 1 ''GET'' None (Some ''payload'') ''burst'' 10))
       [Check 0 (1 / 2) 0, Finish 0 10 (Response 200 (41 / 4)), Check 0 (3 / 2) 0]
     = Some (Inr \<lparr> results = [250], errors = [], workers = [Stopped],
                    sent = [\<lparr> req_method = ''GET'', req_url = ''http://example.com'',
                              req_data = Some ''payload'' \<rparr>] \<rparr>, [])"
  by (simp add: LoadGenerator_init_def init_pool_def all_stopped_def pacer_delay_def
      send_request_latency_def record_sample_def issued_request_def upper_GET)

section \<open>Properties of the pacing\<close>

text \<open>
  The range of the delay, for a non-negative average jitter and a standard draw of the
  random generator: the delay is never negative, it is at most twice the average jitter
  in the uniform mode, and it is zero in every mode but the uniform and exponential ones.
\<close>

lemma pacer_delay_nonneg:
  assumes "0 \<le> avg_jitter lg" "0 \<le> rnd" "pacer_delay lg rnd = Inr d"
  shows "0 \<le> d"
  using assms by (auto simp: pacer_delay_def split: if_splits)

lemma pacer_delay_uniform_range:
  assumes "0 \<le> avg_jitter lg" "rnd < 1" "mode lg = ''uniform''"
  shows "\<exists>d. pacer_delay lg rnd = Inr d \<and> d \<le> 2 * avg_jitter lg"
proof -
  from assms(1,2) have "2 * avg_jitter lg * rnd \<le> 2 * avg_jitter lg * 1"
    by (intro mult_left_mono) simp_all
  with assms(3) show ?thesis by (simp add: pacer_delay_def)
qed

lemma pacer_delay_burst:
  "mode lg \<noteq> ''uniform'' \<Longrightarrow> mode lg \<noteq> ''exponential'' \<Longrightarrow> pacer_delay lg rnd = Inr 0"
  by (simp add: pacer_delay_def)

lemma avg_jitter_seconds:
  "avg_jitter (LoadGenerator_init u c d rt h dt m aj) = real_of_int aj / 1000"
  by (simp add: LoadGenerator_init_def)

section \<open>Properties of the workers\<close>

lemma worker_step_samples:
  "worker_step lg end_time st e = Some (Inr st') \<Longrightarrow>
   length (results st') + length (errors st') =
     length (results st) + length (errors st) + (if is_finish e then 1 else 0)"
  by (cases e) (auto simp: record_sample_def split: if_splits sum.splits)

lemma gather_count:
  "gather lg end_time st evs = Some (Inr st', rest) \<Longrightarrow>
   \<exists>used. evs = used @ rest \<and>
     length (results st') + length (errors st') =
       length (results st) + length (errors st) + completed_attempts used"
proof (induction evs arbitrary: st)
  case Nil
  then show ?case by (auto simp: completed_attempts_def split: if_splits)
next
  case (Cons e es)
  show ?case
  proof (cases "all_stopped st")
    case True
    with Cons.prems have "st' = st" "rest = e # es" by auto
    then show ?thesis by (simp add: completed_attempts_def)
  next
    case False
    with Cons.prems obtain st1 where s1: "worker_step lg end_time st e = Some (Inr st1)"
      and g: "gather lg end_time st1 es = Some (Inr st', rest)"
      by (auto split: option.splits sum.splits)
    from Cons.IH[OF g] obtain used where u: "es = used @ rest"
      "length (results st') + length (errors st') =
         length (results st1) + length (errors st1) + completed_attempts used" by blast
    from worker_step_samples[OF s1] u
    have "e # es = (e # used) @ rest \<and> length (results st') + length (errors st') =
       length (results st) + length (errors st) + completed_attempts (e # used)"
      by (simp add: completed_attempts_def)
    then show ?thesis by blast
  qed
qed

lemma collect_Start:
  "collect lg evs = Some (r, rest) \<Longrightarrow>
   \<exists>t es. evs = Start t # es \<and>
     gather lg (t + real_of_int (duration lg)) (init_pool lg) es = Some (r, rest)"
  by (auto simp: collect_def split: list.splits event.splits)

lemma run_collect:
  "collect lg evs = Some (Inr st, rest) \<Longrightarrow> run np lg evs = Some (reduce np lg st, rest)"
  by (simp add: run_def)

lemma reduce_counts:
  "reduce np lg st = Inr m \<Longrightarrow>
   map_of m ''Successful Requests'' = Some (PInt (int (length (results st)))) \<and>
   map_of m ''Total Errors'' = Some (PInt (int (length (errors st)))) \<and>
   map_of m ''Concurrency Level'' = Some (PInt (concurrency lg)) \<and>
   map_of m ''Duration (s)'' = Some (PInt (duration lg))"
  by (auto simp: reduce_def Let_def split: if_splits)

text \<open>
  Two runs of one worker, used as concrete inputs below. In the first the worker
  makes two attempts before the deadline: a response with status 404 read after 250 ms,
  and a transport exception. In the second its only attempt raises.
\<close>

lemma collect_mixed_run:
  "collect (LoadGenerator_init ''http://example.com'' 1 1 ''GET'' None None ''burst'' 10)
     [Start 0, Check 0 (1 / 2) 0, Finish 0 10 (Response 404 (41 / 4)), Check 0 (7 / 10) 0,
      Finish 0 11 Raises, Check 0 (3 / 2) 0]
   = Some (Inr \<lparr> results = [250], errors = [1], workers = [Stopped],
                  sent = [\<lparr> req_method = ''GET'', req_url = ''http://example.com'', req_data = None \<rparr>,
                          \<lparr> req_method = ''GET'', req_url = ''http://example.com'', req_data = None \<rparr>] \<rparr>, [])"
  by (simp add: collect_def LoadGenerator_init_def init_pool_def all_stopped_def pacer_delay_def
      send_request_latency_def record_sample_def issued_request_def upper_GET)

lemma collect_failing_run:
  "collect (LoadGenerator_init ''http://example.com'' 1 1 ''GET'' None None ''burst'' 10)
     [Start 0, Check 0 (1 / 2) 0, Finish 0 10 Raises, Check 0 (3 / 2) 0]
   = Some (Inr \<lparr> results = [], errors = [1], workers = [Stopped],
                  sent = [\<lparr> req_method = ''GET'', req_url = ''http://example.com'', req_data = None \<rparr>] \<rparr>, [])"
  by (simp add: collect_def LoadGenerator_init_def init_pool_def all_stopped_def pacer_delay_def
      send_request_latency_def record_sample_def issued_request_def upper_GET)

lemma percentile_singleton: "percentile [x] q = x"
  by (simp add: percentile_def)

lemma percentile_keys:
  "map percentile_key percentiles =
     [''p50 Latency (ms)'', ''p75 Latency (ms)'', ''p95 Latency (ms)'', ''p99 Latency (ms)'']"
  by (simp add: percentiles_def percentile_key_def digit_char_def)

lemma run_mixed_run:
  "run percentile (LoadGenerator_init ''http://example.com'' 1 1 ''GET'' None None ''burst'' 10)
     [Start 0, Check 0 (1 / 2) 0, Finish 0 10 (Response 404 (41 / 4)), Check 0 (7 / 10) 0,
      Finish 0 11 Raises, Check 0 (3 / 2) 0]
   = Some (Inr [(''Concurrency Level'', PInt 1), (''Duration (s)'', PInt 1),
                (''Successful Requests'', PInt 1), (''Total Errors'', PInt 1),
                (''Error Rate (%)'', PStr ''0.50''),
                (''p50 Latency (ms)'', PStr ''250.00''), (''p75 Latency (ms)'', PStr ''250.00''),
                (''p95 Latency (ms)'', PStr ''250.00''), (''p99 Latency (ms)'', PStr ''250.00'')],
           [])"
proof -
  have "map (\<lambda>p. (percentile_key p, PStr (format_2f (percentile [250] (real p))))) percentiles =
        [(''p50 Latency (ms)'', PStr ''250.00''), (''p75 Latency (ms)'', PStr ''250.00''),
         (''p95 Latency (ms)'', PStr ''250.00''), (''p99 Latency (ms)'', PStr ''250.00'')]"
    using percentile_keys by (simp add: percentile_singleton format_2f_250 percentiles_def)
  then show ?thesis
    unfolding run_collect[OF collect_mixed_run]
    by (simp add: reduce_def true_divide_def double_round_half format_2f_half
        LoadGenerator_init_def)
qed

text \<open>
  C5. Once every worker has stopped, the number of latencies plus the number of error
  markers equals the number of attempts completed during the run (every completed
  attempt appends exactly one sample to one of the two lists); the sum is zero exactly
  when no attempt was completed. The two counts are the ones reported in the metrics.
\<close>

theorem samples_equal_completed_attempts:
  assumes "collect lg evs = Some (Inr st, rest)"
  shows "\<exists>used. evs = used @ rest \<and>
           length (results st) + length (errors st) = completed_attempts used \<and>
           ((length (results st) + length (errors st) = 0) = (completed_attempts used = 0)) \<and>
           (\<forall>m. run np lg evs = Some (Inr m, rest) \<longrightarrow>
              map_of m ''Successful Requests'' = Some (PInt (int (length (results st)))) \<and>
              map_of m ''Total Errors'' = Some (PInt (int (length (errors st)))))"
proof -
  from collect_Start[OF assms] obtain t es where e: "evs = Start t # es"
    and g: "gather lg (t + real_of_int (duration lg)) (init_pool lg) es = Some (Inr st, rest)"
    by blast
  from gather_count[OF g] obtain used where u: "es = used @ rest"
    "length (results st) + length (errors st) = completed_attempts used"
    by (auto simp: init_pool_def)
  have m: "\<forall>m. run np lg evs = Some (Inr m, rest) \<longrightarrow>
              map_of m ''Successful Requests'' = Some (PInt (int (length (results st)))) \<and>
              map_of m ''Total Errors'' = Some (PInt (int (length (errors st))))"
    using run_collect[OF assms] reduce_counts by simp
  have "evs = (Start t # used) @ rest \<and>
        length (results st) + length (errors st) = completed_attempts (Start t # used)"
    using e u by (simp add: completed_attempts_def)
  with m show ?thesis by metis
qed

theorem samples_equal_completed_attempts_witness:
  "collect (LoadGenerator_init ''http://example.com'' 1 1 ''GET'' None None ''burst'' 10)
     [Start 0, Check 0 (1 / 2) 0, Finish 0 10 (Response 404 (41 / 4)), Check 0 (7 / 10) 0,
      Finish 0 11 Raises, Check 0 (3 / 2) 0]
   = Some (Inr \<lparr> results = [250], errors = [1], workers = [Stopped],
                  sent = [\<lparr> req_method = ''GET'', req_url = ''http://example.com'', req_data = None \<rparr>,
                          \<lparr> req_method = ''GET'', req_url = ''http://example.com'', req_data = None \<rparr>] \<rparr>, [])
   \<and> completed_attempts [Start 0, Check 0 (1 / 2) 0, Finish 0 10 (Response 404 (41 / 4)),
        Check 0 (7 / 10) 0, Finish 0 11 Raises, Check 0 (3 / 2) 0] = 2"
  using samples_equal_completed_attempts[OF collect_mixed_run, where np = percentile]
    collect_mixed_run
  by (simp add: completed_attempts_def)

text \<open>
  C7. A completed attempt is recorded as an error marker exactly when the transport
  raised, and then no latency is recorded; a response that was read is recorded with
  its latency whatever its status code is. The monotonic clock is taken not to go
  backwards between the two readings of an attempt (the worker tells an error from a
  latency by the sign of the value that \<open>_send_request\<close> returns).
\<close>

theorem attempt_error_iff_transport_raises:
  assumes "worker_step lg end_time st (Finish w t0 out) = Some (Inr st')"
      and "monotonic_reading t0 out"
  shows "((errors st' \<noteq> errors st) = (out = Raises)) \<and>
         (out = Raises \<longrightarrow> errors st' = errors st @ [1] \<and> results st' = results st) \<and>
         (\<forall>status t1. out = Response status t1 \<longrightarrow>
            results st' = results st @ [(t1 - t0) * 1000] \<and> errors st' = errors st)"
  using assms
  by (auto simp: record_sample_def send_request_latency_def monotonic_reading_def
      split: if_splits transport_outcome.splits)

theorem attempt_error_iff_transport_raises_witness:
  "worker_step (LoadGenerator_init ''http://example.com'' 1 1 ''GET'' None None ''burst'' 10) 1
     \<lparr> results = [], errors = [], workers = [InFlight], sent = [] \<rparr>
     (Finish 0 10 (Response 500 (41 / 4)))
   = Some (Inr \<lparr> results = [250], errors = [], workers = [Ready],
                  sent = [\<lparr> req_method = ''GET'', req_url = ''http://example.com'', req_data = None \<rparr>] \<rparr>)
   \<and> monotonic_reading 10 (Response 500 (41 / 4))
   \<and> results \<lparr> results = [250], errors = [], workers = [Ready],
                  sent = [\<lparr> req_method = ''GET'', req_url = ''http://example.com'', req_data = None \<rparr>] \<rparr>
       = [] @ [(41 / 4 - 10) * 1000]"
proof -
  have s: "worker_step (LoadGenerator_init ''http://example.com'' 1 1 ''GET'' None None ''burst'' 10) 1
     \<lparr> results = [], errors = [], workers = [InFlight], sent = [] \<rparr>
     (Finish 0 10 (Response 500 (41 / 4)))
   = Some (Inr \<lparr> results = [250], errors = [], workers = [Ready],
                  sent = [\<lparr> req_method = ''GET'', req_url = ''http://example.com'', req_data = None \<rparr>] \<rparr>)"
    by (simp add: LoadGenerator_init_def send_request_latency_def record_sample_def
        issued_request_def upper_GET)
  have m: "monotonic_reading 10 (Response 500 (41 / 4))"
    by (simp add: monotonic_reading_def)
  from attempt_error_iff_transport_raises[OF s m] s m show ?thesis by simp
qed

section \<open>Properties of the metrics\<close>

lemma LoadGenerator_init_fields:
  "concurrency (LoadGenerator_init u c d rt h dt m aj) = c"
  "duration (LoadGenerator_init u c d rt h dt m aj) = d"
  by (simp_all add: LoadGenerator_init_def)

lemma percentile_key_values:
  "percentile_key 50 = ''p50 Latency (ms)''" "percentile_key 75 = ''p75 Latency (ms)''"
  "percentile_key 95 = ''p95 Latency (ms)''" "percentile_key 99 = ''p99 Latency (ms)''"
  by (simp_all add: percentile_key_def digit_char_def)

lemma reduce_with_successes:
  "results st \<noteq> [] \<Longrightarrow>
   reduce np lg st =
     Inr
       [(''Concurrency Level'', PInt (concurrency lg)),
        (''Duration (s)'', PInt (duration lg)),
        (''Successful Requests'', PInt (int (length (results st)))),
        (''Total Errors'', PInt (int (length (errors st)))),
        (''Error Rate (%)'', PStr (format_2f (true_divide (length (errors st)) (length (results st) + length (errors st))))),
        (''p50 Latency (ms)'', PStr (format_2f (np (results st) 50))),
        (''p75 Latency (ms)'', PStr (format_2f (np (results st) 75))),
        (''p95 Latency (ms)'', PStr (format_2f (np (results st) 95))),
        (''p99 Latency (ms)'', PStr (format_2f (np (results st) 99)))]"
  by (simp add: reduce_def Let_def percentiles_def percentile_key_values)

lemma reduce_all_errors:
  "results st = [] \<Longrightarrow> errors st \<noteq> [] \<Longrightarrow>
   reduce np lg st =
     Inr
       [(''Concurrency Level'', PInt (concurrency lg)),
        (''Duration (s)'', PInt (duration lg)),
        (''Successful Requests'', PInt 0),
        (''Total Errors'', PInt (int (length (errors st)))),
        (''Error Rate (%)'', PStr ''1.00'')]"
  by (simp add: reduce_def true_divide_same format_2f_one)

lemma reduce_cases:
  assumes "reduce np lg st = Inr m"
  shows "(results st \<noteq> [] \<and> m =
            [(''Concurrency Level'', PInt (concurrency lg)),
             (''Duration (s)'', PInt (duration lg)),
             (''Successful Requests'', PInt (int (length (results st)))),
             (''Total Errors'', PInt (int (length (errors st)))),
             (''Error Rate (%)'', PStr (format_2f (true_divide (length (errors st)) (length (results st) + length (errors st))))),
             (''p50 Latency (ms)'', PStr (format_2f (np (results st) 50))),
             (''p75 Latency (ms)'', PStr (format_2f (np (results st) 75))),
             (''p95 Latency (ms)'', PStr (format_2f (np (results st) 95))),
             (''p99 Latency (ms)'', PStr (format_2f (np (results st) 99)))]) \<or>
         (results st = [] \<and> errors st \<noteq> [] \<and> m =
            [(''Concurrency Level'', PInt (concurrency lg)),
             (''Duration (s)'', PInt (duration lg)),
             (''Successful Requests'', PInt 0),
             (''Total Errors'', PInt (int (length (errors st)))),
             (''Error Rate (%)'', PStr ''1.00'')])"
proof (cases "results st = []")
  case True
  with assms have "errors st \<noteq> []" by (auto simp: reduce_def)
  with True assms reduce_all_errors[of st np lg] show ?thesis by simp
next
  case False
  with assms reduce_with_successes[of st np lg] show ?thesis by simp
qed

text \<open>
  A run of one worker with one response and then 39 attempts that raise, used as a
  concrete input below.
\<close>

lemma gather_failing_attempts:
  assumes "now < end_time" "mode lg = ''burst''"
  shows "workers st = [Ready] \<Longrightarrow>
     gather lg end_time st (concat (replicate n [Check 0 now rnd, Finish 0 t0 Raises]) @ rest) =
     gather lg end_time
       (st\<lparr> errors := errors st @ replicate n 1,
            sent := sent st @ replicate n (issued_request lg) \<rparr>) rest"
proof (induction n arbitrary: st)
  case 0
  then show ?case by simp
next
  case (Suc n)
  define st1 where "st1 = st\<lparr> errors := errors st @ [1], sent := sent st @ [issued_request lg] \<rparr>"
  from Suc.prems
  have e: "st\<lparr> workers := [Ready], sent := sent st @ [issued_request lg],
               errors := errors st @ [1] \<rparr> = st1"
    by (cases st) (simp add: st1_def)
  from Suc.prems assms
  have "gather lg end_time st
          (concat (replicate (Suc n) [Check 0 now rnd, Finish 0 t0 Raises]) @ rest) =
        gather lg end_time
          (st\<lparr> workers := [Ready], sent := sent st @ [issued_request lg],
               errors := errors st @ [1] \<rparr>)
          (concat (replicate n [Check 0 now rnd, Finish 0 t0 Raises]) @ rest)"
    by (simp add: all_stopped_def pacer_delay_def send_request_latency_def
        record_sample_def)
  also note e
  also from Suc.prems have "workers st1 = [Ready]" by (simp add: st1_def)
  then have "gather lg end_time st1
               (concat (replicate n [Check 0 now rnd, Finish 0 t0 Raises]) @ rest) =
             gather lg end_time
               (st1\<lparr> errors := errors st1 @ replicate n 1,
                     sent := sent st1 @ replicate n (issued_request lg) \<rparr>) rest"
    by (rule Suc.IH)
  also have "st1\<lparr> errors := errors st1 @ replicate n 1,
                  sent := sent st1 @ replicate n (issued_request lg) \<rparr> =
             st\<lparr> errors := errors st @ replicate (Suc n) 1,
                 sent := sent st @ replicate (Suc n) (issued_request lg) \<rparr>"
    by (simp add: st1_def)
  finally show ?case .
qed

lemma collect_skewed_run:
  "collect (LoadGenerator_init ''http://example.com'' 1 1 ''GET'' None None ''burst'' 10)
     (Start 0 # Check 0 (1 / 2) 0 # Finish 0 10 (Response 200 (41 / 4)) #
      concat (replicate 39 [Check 0 (1 / 2) 0, Finish 0 11 Raises]) @ [Check 0 (3 / 2) 0])
   = Some (Inr \<lparr> results = [250], errors = replicate 39 1, workers = [Stopped],
                  sent = [\<lparr> req_method = ''GET'', req_url = ''http://example.com'', req_data = None \<rparr>] @ replicate 39 \<lparr> req_method = ''GET'', req_url = ''http://example.com'', req_data = None \<rparr> \<rparr>, [])"
proof -
  let ?lg = "LoadGenerator_init ''http://example.com'' 1 1 ''GET'' None None ''burst'' 10"
  have m: "mode ?lg = ''burst''" by (simp add: LoadGenerator_init_def)
  have r: "issued_request ?lg = \<lparr> req_method = ''GET'', req_url = ''http://example.com'', req_data = None \<rparr>"
    by (simp add: issued_request_def LoadGenerator_init_def upper_GET)
  have a: "gather ?lg 1 (init_pool ?lg)
        (Check 0 (1 / 2) 0 # Finish 0 10 (Response 200 (41 / 4)) #
         concat (replicate 39 [Check 0 (1 / 2) 0, Finish 0 11 Raises]) @ [Check 0 (3 / 2) 0]) =
      gather ?lg 1 \<lparr> results = [250], errors = [], workers = [Ready], sent = [issued_request ?lg] \<rparr>
        (concat (replicate 39 [Check 0 (1 / 2) 0, Finish 0 11 Raises]) @ [Check 0 (3 / 2) 0])"
    by (simp add: init_pool_def all_stopped_def pacer_delay_def m send_request_latency_def
        record_sample_def LoadGenerator_init_def)
  have b: "gather ?lg 1 \<lparr> results = [250], errors = [], workers = [Ready], sent = [issued_request ?lg] \<rparr>
        (concat (replicate 39 [Check 0 (1 / 2) 0, Finish 0 11 Raises]) @ [Check 0 (3 / 2) 0]) =
      gather ?lg 1 \<lparr> results = [250], errors = replicate 39 1, workers = [Ready],
                      sent = [issued_request ?lg] @ replicate 39 (issued_request ?lg) \<rparr>
        [Check 0 (3 / 2) 0]"
    using gather_failing_attempts[of "1 / 2" 1 ?lg
        "\<lparr> results = [250], errors = [], workers = [Ready], sent = [issued_request ?lg] \<rparr>"
        39 0 11 "[Check 0 (3 / 2) 0]"] m
    by simp
  have c: "gather ?lg 1 \<lparr> results = [250], errors = replicate 39 1, workers = [Ready],
                      sent = [issued_request ?lg] @ replicate 39 (issued_request ?lg) \<rparr>
        [Check 0 (3 / 2) 0] =
      Some (Inr \<lparr> results = [250], errors = replicate 39 1, workers = [Stopped],
                   sent = [issued_request ?lg] @ replicate 39 (issued_request ?lg) \<rparr>, [])"
    by (simp add: all_stopped_def)
  have d: "real_of_int (duration ?lg) = 1" by (simp add: LoadGenerator_init_def)
  show ?thesis
    unfolding collect_def list.case event.case Let_def d
    using a b c r by simp
qed

lemma run_skewed_run:
  "run percentile (LoadGenerator_init ''http://example.com'' 1 1 ''GET'' None None ''burst'' 10)
     (Start 0 # Check 0 (1 / 2) 0 # Finish 0 10 (Response 200 (41 / 4)) #
      concat (replicate 39 [Check 0 (1 / 2) 0, Finish 0 11 Raises]) @ [Check 0 (3 / 2) 0])
   = Some (Inr [(''Concurrency Level'', PInt 1), (''Duration (s)'', PInt 1),
                (''Successful Requests'', PInt 1), (''Total Errors'', PInt 39),
                (''Error Rate (%)'', PStr ''0.97''),
                (''p50 Latency (ms)'', PStr ''250.00''), (''p75 Latency (ms)'', PStr ''250.00''),
                (''p95 Latency (ms)'', PStr ''250.00''), (''p99 Latency (ms)'', PStr ''250.00'')],
           [])"
  unfolding run_collect[OF collect_skewed_run]
  by (simp add: reduce_with_successes percentile_singleton format_2f_250 format_2f_39_40
      LoadGenerator_init_def)

text \<open>
  C8. A run whose workers have stopped with at least one successful request returns
  metrics that carry the four percentile fields \<open>p50\<close>, \<open>p75\<close>, \<open>p95\<close> and \<open>p99\<close>; a
  run whose attempts all failed returns metrics with 0 successful requests, its positive
  number of errors, the error rate 1.0 (printed \<open>1.00\<close>) and no percentile field. So in
  the metrics of every run that returns, each of the four fields is present exactly when
  the number of successful requests is positive.
\<close>

theorem percentile_fields_iff_successes:
  assumes "collect lg evs = Some (Inr st, rest)"
  shows "(results st \<noteq> [] \<longrightarrow>
            run np lg evs =
              Some (Inr
                [(''Concurrency Level'', PInt (concurrency lg)),
                 (''Duration (s)'', PInt (duration lg)),
                 (''Successful Requests'', PInt (int (length (results st)))),
                 (''Total Errors'', PInt (int (length (errors st)))),
                 (''Error Rate (%)'', PStr (format_2f (true_divide (length (errors st)) (length (results st) + length (errors st))))),
                 (''p50 Latency (ms)'', PStr (format_2f (np (results st) 50))),
                 (''p75 Latency (ms)'', PStr (format_2f (np (results st) 75))),
                 (''p95 Latency (ms)'', PStr (format_2f (np (results st) 95))),
                 (''p99 Latency (ms)'', PStr (format_2f (np (results st) 99)))], rest)) \<and>
         (results st = [] \<and> errors st \<noteq> [] \<longrightarrow>
            run np lg evs =
              Some (Inr
                [(''Concurrency Level'', PInt (concurrency lg)),
                 (''Duration (s)'', PInt (duration lg)),
                 (''Successful Requests'', PInt 0),
                 (''Total Errors'', PInt (int (length (errors st)))),
                 (''Error Rate (%)'', PStr ''1.00'')], rest)) \<and>
         (\<forall>m. run np lg evs = Some (Inr m, rest) \<longrightarrow>
            map_of m ''Successful Requests'' = Some (PInt (int (length (results st)))) \<and>
            ((''p50 Latency (ms)'' \<in> fst ` set m) = (0 < length (results st))) \<and>
            ((''p75 Latency (ms)'' \<in> fst ` set m) = (0 < length (results st))) \<and>
            ((''p95 Latency (ms)'' \<in> fst ` set m) = (0 < length (results st))) \<and>
            ((''p99 Latency (ms)'' \<in> fst ` set m) = (0 < length (results st))))"
proof -
  have r: "run np lg evs = Some (reduce np lg st, rest)" by (rule run_collect[OF assms])
  have a: "results st \<noteq> [] \<longrightarrow>
            run np lg evs =
              Some (Inr
                [(''Concurrency Level'', PInt (concurrency lg)),
                 (''Duration (s)'', PInt (duration lg)),
                 (''Successful Requests'', PInt (int (length (results st)))),
                 (''Total Errors'', PInt (int (length (errors st)))),
                 (''Error Rate (%)'', PStr (format_2f (true_divide (length (errors st)) (length (results st) + length (errors st))))),
                 (''p50 Latency (ms)'', PStr (format_2f (np (results st) 50))),
                 (''p75 Latency (ms)'', PStr (format_2f (np (results st) 75))),
                 (''p95 Latency (ms)'', PStr (format_2f (np (results st) 95))),
                 (''p99 Latency (ms)'', PStr (format_2f (np (results st) 99)))], rest)"
    using r reduce_with_successes[of st np lg] by simp
  have b: "results st = [] \<and> errors st \<noteq> [] \<longrightarrow>
            run np lg evs =
              Some (Inr
                [(''Concurrency Level'', PInt (concurrency lg)),
                 (''Duration (s)'', PInt (duration lg)),
                 (''Successful Requests'', PInt 0),
                 (''Total Errors'', PInt (int (length (errors st)))),
                 (''Error Rate (%)'', PStr ''1.00'')], rest)"
    using r reduce_all_errors[of st np lg] by simp
  have c: "\<forall>m. run np lg evs = Some (Inr m, rest) \<longrightarrow>
            map_of m ''Successful Requests'' = Some (PInt (int (length (results st)))) \<and>
            ((''p50 Latency (ms)'' \<in> fst ` set m) = (0 < length (results st))) \<and>
            ((''p75 Latency (ms)'' \<in> fst ` set m) = (0 < length (results st))) \<and>
            ((''p95 Latency (ms)'' \<in> fst ` set m) = (0 < length (results st))) \<and>
            ((''p99 Latency (ms)'' \<in> fst ` set m) = (0 < length (results st)))"
  proof (intro allI impI)
    fix m assume "run np lg evs = Some (Inr m, rest)"
    with r have m: "reduce np lg st = Inr m" by simp
    from reduce_cases[OF m]
    show "map_of m ''Successful Requests'' = Some (PInt (int (length (results st)))) \<and>
            ((''p50 Latency (ms)'' \<in> fst ` set m) = (0 < length (results st))) \<and>
            ((''p75 Latency (ms)'' \<in> fst ` set m) = (0 < length (results st))) \<and>
            ((''p95 Latency (ms)'' \<in> fst ` set m) = (0 < length (results st))) \<and>
            ((''p99 Latency (ms)'' \<in> fst ` set m) = (0 < length (results st)))"
      by (elim disjE conjE) simp_all
  qed
  from a b c show ?thesis by (intro conjI)
qed

theorem percentile_fields_iff_successes_witness:
  "collect (LoadGenerator_init ''http://example.com'' 1 1 ''GET'' None None ''burst'' 10)
     [Start 0, Check 0 (1 / 2) 0, Finish 0 10 Raises, Check 0 (3 / 2) 0]
   = Some (Inr \<lparr> results = [], errors = [1], workers = [Stopped],
                  sent = [\<lparr> req_method = ''GET'', req_url = ''http://example.com'', req_data = None \<rparr>] \<rparr>, [])
   \<and> run percentile (LoadGenerator_init ''http://example.com'' 1 1 ''GET'' None None ''burst'' 10)
     [Start 0, Check 0 (1 / 2) 0, Finish 0 10 Raises, Check 0 (3 / 2) 0]
   = Some (Inr [(''Concurrency Level'', PInt 1), (''Duration (s)'', PInt 1),
                (''Successful Requests'', PInt 0), (''Total Errors'', PInt 1),
                (''Error Rate (%)'', PStr ''1.00'')], [])
   \<and> collect (LoadGenerator_init ''http://example.com'' 1 1 ''GET'' None None ''burst'' 10)
     [Start 0, Check 0 (1 / 2) 0, Finish 0 10 (Response 404 (41 / 4)), Check 0 (7 / 10) 0,
      Finish 0 11 Raises, Check 0 (3 / 2) 0]
   = Some (Inr \<lparr> results = [250], errors = [1], workers = [Stopped],
                  sent = [\<lparr> req_method = ''GET'', req_url = ''http://example.com'', req_data = None \<rparr>,
                          \<lparr> req_method = ''GET'', req_url = ''http://example.com'', req_data = None \<rparr>] \<rparr>, [])
   \<and> run percentile (LoadGenerator_init ''http://example.com'' 1 1 ''GET'' None None ''burst'' 10)
     [Start 0, Check 0 (1 / 2) 0, Finish 0 10 (Response 404 (41 / 4)), Check 0 (7 / 10) 0,
      Finish 0 11 Raises, Check 0 (3 / 2) 0]
   = Some (Inr [(''Concurrency Level'', PInt 1), (''Duration (s)'', PInt 1),
                (''Successful Requests'', PInt 1), (''Total Errors'', PInt 1),
                (''Error Rate (%)'', PStr ''0.50''),
                (''p50 Latency (ms)'', PStr ''250.00''), (''p75 Latency (ms)'', PStr ''250.00''),
                (''p95 Latency (ms)'', PStr ''250.00''), (''p99 Latency (ms)'', PStr ''250.00'')],
           [])"
  using percentile_fields_iff_successes[OF collect_failing_run, where np = percentile]
    percentile_fields_iff_successes[OF collect_mixed_run, where np = percentile]
    collect_failing_run collect_mixed_run
  by (simp add: LoadGenerator_init_fields percentile_singleton format_2f_250 true_divide_def
      double_round_half format_2f_half)

text \<open>
  C10. In the metrics of a run that returns, the value under \<open>Error Rate (%)\<close> is a
  string of two decimals: it prints the quotient of the number of errors by the number
  of attempts, as Python computes it (the double nearest to the fraction, which lies
  between 0 and 1), and the quotient is not multiplied by 100. When there is a successful
  request, the value of each of the four percentile fields is the string of two decimals
  that prints the value returned by \<open>numpy.percentile\<close>.
\<close>

theorem error_rate_is_fraction_string:
  assumes "collect lg evs = Some (Inr st, rest)" and "run np lg evs = Some (Inr m, rest)"
  shows "0 < length (results st) + length (errors st) \<and>
         map_of m ''Error Rate (%)'' =
           Some (PStr (format_2f
             (true_divide (length (errors st)) (length (results st) + length (errors st))))) \<and>
         two_decimals (format_2f
             (true_divide (length (errors st)) (length (results st) + length (errors st)))) \<and>
         0 \<le> true_divide (length (errors st)) (length (results st) + length (errors st)) \<and>
         true_divide (length (errors st)) (length (results st) + length (errors st)) \<le> 1 \<and>
         \<bar>true_divide (length (errors st)) (length (results st) + length (errors st)) -
            real (length (errors st)) / real (length (results st) + length (errors st))\<bar>
           \<le> 1 / 2 ^ 54 \<and>
         (results st \<noteq> [] \<longrightarrow>
            map_of m ''p50 Latency (ms)'' = Some (PStr (format_2f (np (results st) 50))) \<and>
            map_of m ''p75 Latency (ms)'' = Some (PStr (format_2f (np (results st) 75))) \<and>
            map_of m ''p95 Latency (ms)'' = Some (PStr (format_2f (np (results st) 95))) \<and>
            map_of m ''p99 Latency (ms)'' = Some (PStr (format_2f (np (results st) 99))) \<and>
            two_decimals (format_2f (np (results st) 50)) \<and>
            two_decimals (format_2f (np (results st) 75)) \<and>
            two_decimals (format_2f (np (results st) 95)) \<and>
            two_decimals (format_2f (np (results st) 99)))"
proof -
  from run_collect[OF assms(1)] assms(2) have m: "reduce np lg st = Inr m" by simp
  then have p: "0 < length (results st) + length (errors st)"
    by (auto simp: reduce_def split: if_splits)
  have e: "map_of m ''Error Rate (%)'' =
           Some (PStr (format_2f
             (true_divide (length (errors st)) (length (results st) + length (errors st)))))"
    using reduce_cases[OF m] by (auto simp: true_divide_same format_2f_one)
  have q: "results st \<noteq> [] \<longrightarrow>
            map_of m ''p50 Latency (ms)'' = Some (PStr (format_2f (np (results st) 50))) \<and>
            map_of m ''p75 Latency (ms)'' = Some (PStr (format_2f (np (results st) 75))) \<and>
            map_of m ''p95 Latency (ms)'' = Some (PStr (format_2f (np (results st) 95))) \<and>
            map_of m ''p99 Latency (ms)'' = Some (PStr (format_2f (np (results st) 99)))"
    using reduce_cases[OF m] by auto
  from p e q true_divide_fraction[OF p] format_2f_two_decimals show ?thesis by simp
qed

theorem error_rate_is_fraction_string_witness:
  "collect (LoadGenerator_init ''http://example.com'' 1 1 ''GET'' None None ''burst'' 10)
     (Start 0 # Check 0 (1 / 2) 0 # Finish 0 10 (Response 200 (41 / 4)) #
      concat (replicate 39 [Check 0 (1 / 2) 0, Finish 0 11 Raises]) @ [Check 0 (3 / 2) 0])
   = Some (Inr \<lparr> results = [250], errors = replicate 39 1, workers = [Stopped],
                  sent = [\<lparr> req_method = ''GET'', req_url = ''http://example.com'', req_data = None \<rparr>] @ replicate 39 \<lparr> req_method = ''GET'', req_url = ''http://example.com'', req_data = None \<rparr> \<rparr>, [])
   \<and> run percentile (LoadGenerator_init ''http://example.com'' 1 1 ''GET'' None None ''burst'' 10)
     (Start 0 # Check 0 (1 / 2) 0 # Finish 0 10 (Response 200 (41 / 4)) #
      concat (replicate 39 [Check 0 (1 / 2) 0, Finish 0 11 Raises]) @ [Check 0 (3 / 2) 0])
   = Some (Inr [(''Concurrency Level'', PInt 1), (''Duration (s)'', PInt 1),
                (''Successful Requests'', PInt 1), (''Total Errors'', PInt 39),
                (''Error Rate (%)'', PStr ''0.97''),
                (''p50 Latency (ms)'', PStr ''250.00''), (''p75 Latency (ms)'', PStr ''250.00''),
                (''p95 Latency (ms)'', PStr ''250.00''), (''p99 Latency (ms)'', PStr ''250.00'')],
           [])
   \<and> map_of [(''Concurrency Level'', PInt 1), (''Duration (s)'', PInt 1),
                (''Successful Requests'', PInt 1), (''Total Errors'', PInt 39),
                (''Error Rate (%)'', PStr ''0.97''),
                (''p50 Latency (ms)'', PStr ''250.00''), (''p75 Latency (ms)'', PStr ''250.00''),
                (''p95 Latency (ms)'', PStr ''250.00''), (''p99 Latency (ms)'', PStr ''250.00'')]
        ''Error Rate (%)''
     = Some (PStr ''0.97'')
   \<and> format_2f (true_divide 39 40) = ''0.97''"
  using error_rate_is_fraction_string[OF collect_skewed_run run_skewed_run]
    collect_skewed_run run_skewed_run
  by (simp add: format_2f_39_40)

section \<open>Properties of the orchestrator\<close>

lemma gather_prefix:
  "gather lg end_time st evs = Some (r, rest) \<Longrightarrow>
   \<exists>used. evs = used @ rest \<and> gather lg end_time st used = Some (r, [])"
proof (induction evs arbitrary: st)
  case Nil
  then show ?case by (auto split: if_splits)
next
  case (Cons e es)
  show ?case
  proof (cases "all_stopped st")
    case True
    with Cons.prems have "r = Inr st" "rest = e # es" by auto
    with True show ?thesis by auto
  next
    case False
    show ?thesis
    proof (cases "worker_step lg end_time st e")
      case None
      with False Cons.prems show ?thesis by simp
    next
      case (Some a)
      show ?thesis
      proof (cases a)
        case (Inl err)
        with Some False Cons.prems have "r = Inl err" "rest = es" by auto
        with Some Inl False
        have "e # es = [e] @ rest \<and> gather lg end_time st [e] = Some (r, [])"
          by simp
        then show ?thesis by blast
      next
        case (Inr st')
        with Some False Cons.prems have "gather lg end_time st' es = Some (r, rest)" by simp
        from Cons.IH[OF this] obtain used
          where u: "es = used @ rest" "gather lg end_time st' used = Some (r, [])"
          by blast
        with Some Inr False
        have "e # es = (e # used) @ rest \<and> gather lg end_time st (e # used) = Some (r, [])"
          by simp
        then show ?thesis by blast
      qed
    qed
  qed
qed

lemma run_prefix:
  assumes "run np lg evs = Some (r, rest)"
  shows "\<exists>used. evs = used @ rest \<and> run np lg used = Some (r, [])"
proof -
  from assms obtain c where c: "collect lg evs = Some (c, rest)"
    and r: "r = (case c of Inl err \<Rightarrow> Inl err | Inr st \<Rightarrow> reduce np lg st)"
    by (auto simp: run_def split: option.splits sum.splits)
  from collect_Start[OF c] obtain t es where e: "evs = Start t # es"
    and g: "gather lg (t + real_of_int (duration lg)) (init_pool lg) es = Some (c, rest)"
    by blast
  from gather_prefix[OF g] obtain used where u: "es = used @ rest"
    "gather lg (t + real_of_int (duration lg)) (init_pool lg) used = Some (c, [])"
    by blast
  then have "collect lg (Start t # used) = Some (c, [])" by (simp add: collect_def)
  with r have "run np lg (Start t # used) = Some (r, [])"
    by (simp add: run_def split: sum.splits)
  with e u(1) have "evs = (Start t # used) @ rest \<and> run np lg (Start t # used) = Some (r, [])"
    by simp
  then show ?thesis by blast
qed

lemma run_concurrency_level:
  assumes "run np lg evs = Some (Inr m, rest)"
  shows "map_of m ''Concurrency Level'' = Some (PInt (concurrency lg))"
proof -
  from assms obtain st where "reduce np lg st = Inr m"
    by (auto simp: run_def split: option.splits sum.splits)
  then show ?thesis by (simp add: reduce_counts)
qed

lemma concurrency_generator: "concurrency (generator b c) = c"
  by (simp add: generator_def LoadGenerator_init_def)

lemma run_tests_loop_report:
  "run_tests_loop np b res cs evs = Some (Inr report, rest) \<Longrightarrow>
   \<exists>ms segs. report = res @ ms \<and> length ms = length cs \<and> length segs = length cs \<and>
     evs = concat segs @ rest \<and>
     (\<forall>i < length cs. run np (generator b (cs ! i)) (segs ! i) = Some (Inr (ms ! i), []))"
proof (induction cs arbitrary: res evs)
  case Nil
  then show ?case by simp
next
  case (Cons c cs)
  from Cons.prems obtain m rest1 where r: "run np (generator b c) evs = Some (Inr m, rest1)"
    and l: "run_tests_loop np b (res @ [m]) cs rest1 = Some (Inr report, rest)"
    by (auto split: option.splits sum.splits)
  from run_prefix[OF r] obtain used where u: "evs = used @ rest1"
    "run np (generator b c) used = Some (Inr m, [])" by blast
  from Cons.IH[OF l] obtain ms segs where i: "report = (res @ [m]) @ ms"
    "length ms = length cs" "length segs = length cs" "rest1 = concat segs @ rest"
    "\<forall>i < length cs. run np (generator b (cs ! i)) (segs ! i) = Some (Inr (ms ! i), [])"
    by blast
  have "\<forall>i < length (c # cs).
          run np (generator b ((c # cs) ! i)) ((used # segs) ! i) = Some (Inr ((m # ms) ! i), [])"
  proof (intro allI impI)
    fix i assume "i < length (c # cs)"
    then show "run np (generator b ((c # cs) ! i)) ((used # segs) ! i) = Some (Inr ((m # ms) ! i), [])"
      using u(2) i(5) by (cases i) simp_all
  qed
  with u(1) i(1-4)
  have "report = res @ (m # ms) \<and> length (m # ms) = length (c # cs) \<and>
        length (used # segs) = length (c # cs) \<and> evs = concat (used # segs) @ rest \<and>
        (\<forall>i < length (c # cs).
          run np (generator b ((c # cs) ! i)) ((used # segs) ! i) = Some (Inr ((m # ms) ! i), []))"
    by simp
  then show ?case by blast
qed

text \<open>
  The benchmark used as a concrete input below: the levels 1 and 2, run one after the
  other. The worker of the first run reads one response; the two workers of the second
  run are interleaved and both of their attempts raise.
\<close>

lemma replicate_two: "replicate 2 x = [x, x]"
  by (simp add: numeral_2_eq_2)

lemma run_tests_two_levels:
  "run_tests percentile (HTTPBenchmark_init ''http://example.com'' 1 [1, 2] ''get'' None None ''burst'' 10)
     [Start 0, Check 0 (1 / 2) 0, Finish 0 10 (Response 200 (41 / 4)), Check 0 (3 / 2) 0,
      Start 2, Check 0 (5 / 2) 0, Check 1 (5 / 2) 0, Finish 1 20 Raises, Finish 0 20 Raises,
      Check 1 (7 / 2) 0, Check 0 (7 / 2) 0]
   = Some (Inr [[(''Concurrency Level'', PInt 1), (''Duration (s)'', PInt 1),
                 (''Successful Requests'', PInt 1), (''Total Errors'', PInt 0),
                 (''Error Rate (%)'', PStr ''0.00''),
                 (''p50 Latency (ms)'', PStr ''250.00''), (''p75 Latency (ms)'', PStr ''250.00''),
                 (''p95 Latency (ms)'', PStr ''250.00''), (''p99 Latency (ms)'', PStr ''250.00'')],
                [(''Concurrency Level'', PInt 2), (''Duration (s)'', PInt 1),
                 (''Successful Requests'', PInt 0), (''Total Errors'', PInt 2),
                 (''Error Rate (%)'', PStr ''1.00'')]], [])"
proof -
  have p: "map (\<lambda>p. (percentile_key p, PStr (format_2f (percentile [250] (real p))))) percentiles =
        [(''p50 Latency (ms)'', PStr ''250.00''), (''p75 Latency (ms)'', PStr ''250.00''),
         (''p95 Latency (ms)'', PStr ''250.00''), (''p99 Latency (ms)'', PStr ''250.00'')]"
    using percentile_keys by (simp add: percentile_singleton format_2f_250 percentiles_def)
  show ?thesis
    by (simp add: run_tests_def HTTPBenchmark_init_def generator_def run_def collect_def
        LoadGenerator_init_def init_pool_def all_stopped_def pacer_delay_def
        send_request_latency_def record_sample_def issued_request_def reduce_def
        p format_2f_zero format_2f_one true_divide_zero true_divide_same replicate_two)
qed

text \<open>
  C6. When the benchmark returns its report, the report has one metrics row per
  requested level, the row at position \<open>i\<close> carries the level at position \<open>i\<close>, and the
  events consumed split into consecutive segments, one per level in the input order,
  the run of each level being the run on its own segment alone.
\<close>

theorem report_preserves_level_order:
  assumes "run_tests np b evs = Some (Inr report, rest)"
  shows "length report = length (hb_concurrency_levels b) \<and>
         (\<forall>i < length (hb_concurrency_levels b).
            map_of (report ! i) ''Concurrency Level'' = Some (PInt (hb_concurrency_levels b ! i))) \<and>
         (\<exists>segs. length segs = length (hb_concurrency_levels b) \<and> evs = concat segs @ rest \<and>
            (\<forall>i < length (hb_concurrency_levels b).
               run np (generator b (hb_concurrency_levels b ! i)) (segs ! i)
                 = Some (Inr (report ! i), [])))"
proof -
  from assms have "run_tests_loop np b [] (hb_concurrency_levels b) evs = Some (Inr report, rest)"
    by (simp add: run_tests_def)
  from run_tests_loop_report[OF this] obtain segs
    where s: "length report = length (hb_concurrency_levels b)"
      "length segs = length (hb_concurrency_levels b)" "evs = concat segs @ rest"
      "\<forall>i < length (hb_concurrency_levels b).
         run np (generator b (hb_concurrency_levels b ! i)) (segs ! i) = Some (Inr (report ! i), [])"
    by auto
  from s(4) have "\<forall>i < length (hb_concurrency_levels b).
            map_of (report ! i) ''Concurrency Level'' = Some (PInt (hb_concurrency_levels b ! i))"
    using run_concurrency_level concurrency_generator by metis
  with s show ?thesis by blast
qed

theorem report_preserves_level_order_witness:
  "run_tests percentile (HTTPBenchmark_init ''http://example.com'' 1 [1, 2] ''get'' None None ''burst'' 10)
     [Start 0, Check 0 (1 / 2) 0, Finish 0 10 (Response 200 (41 / 4)), Check 0 (3 / 2) 0,
      Start 2, Check 0 (5 / 2) 0, Check 1 (5 / 2) 0, Finish 1 20 Raises, Finish 0 20 Raises,
      Check 1 (7 / 2) 0, Check 0 (7 / 2) 0]
   = Some (Inr [[(''Concurrency Level'', PInt 1), (''Duration (s)'', PInt 1),
                 (''Successful Requests'', PInt 1), (''Total Errors'', PInt 0),
                 (''Error Rate (%)'', PStr ''0.00''),
                 (''p50 Latency (ms)'', PStr ''250.00''), (''p75 Latency (ms)'', PStr ''250.00''),
                 (''p95 Latency (ms)'', PStr ''250.00''), (''p99 Latency (ms)'', PStr ''250.00'')],
                [(''Concurrency Level'', PInt 2), (''Duration (s)'', PInt 1),
                 (''Successful Requests'', PInt 0), (''Total Errors'', PInt 2),
                 (''Error Rate (%)'', PStr ''1.00'')]], [])
   \<and> hb_concurrency_levels
        (HTTPBenchmark_init ''http://example.com'' 1 [1, 2] ''get'' None None ''burst'' 10) = [1, 2]
   \<and> length [[(''Concurrency Level'', PInt 1), (''Duration (s)'', PInt 1),
                 (''Successful Requests'', PInt 1), (''Total Errors'', PInt 0),
                 (''Error Rate (%)'', PStr ''0.00''),
                 (''p50 Latency (ms)'', PStr ''250.00''), (''p75 Latency (ms)'', PStr ''250.00''),
                 (''p95 Latency (ms)'', PStr ''250.00''), (''p99 Latency (ms)'', PStr ''250.00'')],
                [(''Concurrency Level'', PInt 2), (''Duration (s)'', PInt 1),
                 (''Successful Requests'', PInt 0), (''Total Errors'', PInt 2),
                 (''Error Rate (%)'', PStr ''1.00'')]]
       = length (hb_concurrency_levels
           (HTTPBenchmark_init ''http://example.com'' 1 [1, 2] ''get'' None None ''burst'' 10))"
proof -
  have l: "hb_concurrency_levels
        (HTTPBenchmark_init ''http://example.com'' 1 [1, 2] ''get'' None None ''burst'' 10) = [1, 2]"
    by (simp add: HTTPBenchmark_init_def)
  from report_preserves_level_order[OF run_tests_two_levels] run_tests_two_levels l
  show ?thesis by simp
qed

section \<open>Configurations that the specification calls invalid\<close>

lemma worker_step_no_attempt:
  assumes "worker_step lg end_time st e = Some r"
      and "end_time \<le> t" "clock_not_before t e"
      and "list_all (\<lambda>w. w \<noteq> InFlight) (workers st)"
  shows "\<exists>st'. r = Inr st' \<and> results st' = results st \<and> errors st' = errors st \<and>
           sent st' = sent st \<and> list_all (\<lambda>w. w \<noteq> InFlight) (workers st')"
proof (cases e)
  case (Start x)
  with assms(1) show ?thesis by simp
next
  case (Check w now rnd)
  with assms(2,3) have "\<not> now < end_time" by simp
  with assms(1) Check have r: "r = Inr (st\<lparr> workers := (workers st)[w := Stopped] \<rparr>)"
    by (simp split: if_splits)
  have "list_all (\<lambda>w. w \<noteq> InFlight) ((workers st)[w := Stopped])"
    using assms(4) set_update_subset_insert[of "workers st" w Stopped]
    by (auto simp: list_all_iff)
  with r show ?thesis by simp
next
  case (Finish w t0 out)
  with assms(1) have "w < length (workers st)" "workers st ! w = InFlight"
    by (simp_all split: if_splits)
  with assms(4) show ?thesis by (auto simp: list_all_length)
qed

lemma gather_no_attempt:
  "gather lg end_time st evs = Some (r, rest) \<Longrightarrow> end_time \<le> t \<Longrightarrow>
   list_all (clock_not_before t) evs \<Longrightarrow> list_all (\<lambda>w. w \<noteq> InFlight) (workers st) \<Longrightarrow>
   \<exists>st'. r = Inr st' \<and> results st' = results st \<and> errors st' = errors st \<and> sent st' = sent st"
proof (induction evs arbitrary: st)
  case Nil
  then show ?case by (auto split: if_splits)
next
  case (Cons e es)
  show ?case
  proof (cases "all_stopped st")
    case True
    with Cons.prems(1) show ?thesis by auto
  next
    case False
    with Cons.prems(1) obtain r1 where s: "worker_step lg end_time st e = Some r1"
      by (auto split: option.splits)
    from Cons.prems(3) have ce: "clock_not_before t e" and ces: "list_all (clock_not_before t) es"
      by simp_all
    from worker_step_no_attempt[OF s Cons.prems(2) ce Cons.prems(4)]
    obtain st1 where s1: "r1 = Inr st1" "results st1 = results st" "errors st1 = errors st"
      "sent st1 = sent st" "list_all (\<lambda>w. w \<noteq> InFlight) (workers st1)" by blast
    with s False Cons.prems(1) have "gather lg end_time st1 es = Some (r, rest)" by simp
    from Cons.IH[OF this Cons.prems(2) ces s1(5)] s1 show ?thesis by auto
  qed
qed

lemma run_tests_loop_append:
  "run_tests_loop np b res (cs1 @ cs2) evs =
     (case run_tests_loop np b res cs1 evs of
        None \<Rightarrow> None
      | Some (Inl err, rest1) \<Rightarrow> Some (Inl err, rest1)
      | Some (Inr res1, rest1) \<Rightarrow> run_tests_loop np b res1 cs2 rest1)"
  by (induction cs1 arbitrary: res evs) (auto split: option.splits sum.splits)

text \<open>
  C2, as the claim states it, fails: nothing checks the configuration. With the levels
  1 and 0, the run of level 1 is carried out (its worker is created and completes an
  attempt) and returns its metrics; only then the run of level 0 raises, and what it
  raises is the \<open>ZeroDivisionError\<close> of the reduction.
\<close>

theorem invalid_level_not_detected_before_runs:
  "run percentile (generator (HTTPBenchmark_init ''http://example.com'' 1 [1, 0] ''GET'' None None ''burst'' 10) 1)
     [Start 0, Check 0 (1 / 2) 0, Finish 0 10 (Response 200 (41 / 4)), Check 0 (3 / 2) 0, Start 2]
   = Some (Inr [(''Concurrency Level'', PInt 1), (''Duration (s)'', PInt 1),
                (''Successful Requests'', PInt 1), (''Total Errors'', PInt 0),
                (''Error Rate (%)'', PStr ''0.00''),
                (''p50 Latency (ms)'', PStr ''250.00''), (''p75 Latency (ms)'', PStr ''250.00''),
                (''p95 Latency (ms)'', PStr ''250.00''), (''p99 Latency (ms)'', PStr ''250.00'')],
           [Start 2])
   \<and> run_tests percentile (HTTPBenchmark_init ''http://example.com'' 1 [1, 0] ''GET'' None None ''burst'' 10)
     [Start 0, Check 0 (1 / 2) 0, Finish 0 10 (Response 200 (41 / 4)), Check 0 (3 / 2) 0, Start 2]
   = Some (Inl ZeroDivisionError, [])"
proof -
  have p: "map (\<lambda>p. (percentile_key p, PStr (format_2f (percentile [250] (real p))))) percentiles =
        [(''p50 Latency (ms)'', PStr ''250.00''), (''p75 Latency (ms)'', PStr ''250.00''),
         (''p95 Latency (ms)'', PStr ''250.00''), (''p99 Latency (ms)'', PStr ''250.00'')]"
    using percentile_keys by (simp add: percentile_singleton format_2f_250 percentiles_def)
  show ?thesis
    by (simp add: run_tests_def HTTPBenchmark_init_def generator_def run_def collect_def
        LoadGenerator_init_def init_pool_def all_stopped_def pacer_delay_def
        send_request_latency_def record_sample_def issued_request_def reduce_def p
        format_2f_zero true_divide_zero)
qed

text \<open>
  C2, amended. No configuration is rejected. The two constructors store every
  concurrency level and every duration as they are given, and the loop over the levels
  hands a level to its run, whatever the level is, once the runs of all the levels before
  it have returned their metrics (when one of them raises or does not end, the level is
  not reached). A run whose concurrency level is not positive creates no worker, and its
  workers are awaited at once, with no sample and no event consumed. A run whose duration
  is not positive, when no deadline check reads a wall clock earlier than the start of
  the run, ends with no request sent and no sample recorded.
\<close>

theorem invalid_configuration_not_rejected:
  "hb_concurrency_levels (HTTPBenchmark_init u d cl rt h dt m aj) = cl \<and>
   hb_duration (HTTPBenchmark_init u d cl rt h dt m aj) = d \<and>
   concurrency (LoadGenerator_init u c d rt h dt m aj) = c \<and>
   duration (LoadGenerator_init u c d rt h dt m aj) = d \<and>
   concurrency (generator b c) = c \<and>
   duration (generator b c) = hb_duration b \<and>
   run_tests_loop np b res (cs1 @ c # cs2) evs0 =
     (case run_tests_loop np b res cs1 evs0 of
        None \<Rightarrow> None
      | Some (Inl err, rest1) \<Rightarrow> Some (Inl err, rest1)
      | Some (Inr res1, rest1) \<Rightarrow>
          (case run np (generator b c) rest1 of
             None \<Rightarrow> None
           | Some (Inl err, rest2) \<Rightarrow> Some (Inl err, rest2)
           | Some (Inr row, rest2) \<Rightarrow> run_tests_loop np b (res1 @ [row]) cs2 rest2)) \<and>
   (concurrency lg \<le> 0 \<longrightarrow>
      workers (init_pool lg) = [] \<and> collect lg (Start t # evs) = Some (Inr (init_pool lg), evs)) \<and>
   (duration lg \<le> 0 \<and> list_all (clock_not_before t) evs \<and>
    collect lg (Start t # evs) = Some (r, rest) \<longrightarrow>
      (\<exists>st. r = Inr st \<and> results st = [] \<and> errors st = [] \<and> sent st = []))"
proof -
  have i: "hb_concurrency_levels (HTTPBenchmark_init u d cl rt h dt m aj) = cl \<and>
   hb_duration (HTTPBenchmark_init u d cl rt h dt m aj) = d \<and>
   concurrency (LoadGenerator_init u c d rt h dt m aj) = c \<and>
   duration (LoadGenerator_init u c d rt h dt m aj) = d \<and>
   concurrency (generator b c) = c \<and>
   duration (generator b c) = hb_duration b"
    by (simp add: HTTPBenchmark_init_def LoadGenerator_init_def generator_def)
  have l: "run_tests_loop np b res (cs1 @ c # cs2) evs0 =
     (case run_tests_loop np b res cs1 evs0 of
        None \<Rightarrow> None
      | Some (Inl err, rest1) \<Rightarrow> Some (Inl err, rest1)
      | Some (Inr res1, rest1) \<Rightarrow>
          (case run np (generator b c) rest1 of
             None \<Rightarrow> None
           | Some (Inl err, rest2) \<Rightarrow> Some (Inl err, rest2)
           | Some (Inr row, rest2) \<Rightarrow> run_tests_loop np b (res1 @ [row]) cs2 rest2))"
    by (simp add: run_tests_loop_append split: option.splits sum.splits)
  have z: "concurrency lg \<le> 0 \<longrightarrow>
      workers (init_pool lg) = [] \<and> collect lg (Start t # evs) = Some (Inr (init_pool lg), evs)"
  proof
    assume c: "concurrency lg \<le> 0"
    then have "all_stopped (init_pool lg)" by (simp add: init_pool_def all_stopped_def)
    then have "collect lg (Start t # evs) = Some (Inr (init_pool lg), evs)"
      by (simp add: collect_def gather_all_stopped)
    with c show "workers (init_pool lg) = [] \<and>
        collect lg (Start t # evs) = Some (Inr (init_pool lg), evs)"
      by (simp add: init_pool_def)
  qed
  have n: "duration lg \<le> 0 \<and> list_all (clock_not_before t) evs \<and>
    collect lg (Start t # evs) = Some (r, rest) \<longrightarrow>
      (\<exists>st. r = Inr st \<and> results st = [] \<and> errors st = [] \<and> sent st = [])"
  proof
    assume a: "duration lg \<le> 0 \<and> list_all (clock_not_before t) evs \<and>
      collect lg (Start t # evs) = Some (r, rest)"
    then have g: "gather lg (t + real_of_int (duration lg)) (init_pool lg) evs = Some (r, rest)"
      by (simp add: collect_def)
    from a have d: "t + real_of_int (duration lg) \<le> t" by simp
    have w: "list_all (\<lambda>w. w \<noteq> InFlight) (workers (init_pool lg))"
      by (simp add: init_pool_def list_all_iff)
    from gather_no_attempt[OF g d _ w] a
    show "\<exists>st. r = Inr st \<and> results st = [] \<and> errors st = [] \<and> sent st = []"
      by (simp add: init_pool_def)
  qed
  from i l z n show ?thesis by (intro conjI) simp_all
qed

theorem invalid_configuration_not_rejected_witness:
  "concurrency (LoadGenerator_init ''http://example.com'' 0 1 ''GET'' None None ''burst'' 10) \<le> 0
   \<and> collect (LoadGenerator_init ''http://example.com'' 0 1 ''GET'' None None ''burst'' 10)
        (Start 5 # [])
     = Some (Inr (init_pool (LoadGenerator_init ''http://example.com'' 0 1 ''GET'' None None ''burst'' 10)), [])
   \<and> duration (LoadGenerator_init ''http://example.com'' 2 0 ''GET'' None None ''burst'' 10) \<le> 0
   \<and> list_all (clock_not_before 5) [Check 1 5 0, Check 0 6 0]
   \<and> collect (LoadGenerator_init ''http://example.com'' 2 0 ''GET'' None None ''burst'' 10)
        (Start 5 # [Check 1 5 0, Check 0 6 0])
     = Some (Inr \<lparr> results = [], errors = [], workers = [Stopped, Stopped], sent = [] \<rparr>, [])"
proof -
  have c: "concurrency (LoadGenerator_init ''http://example.com'' 0 1 ''GET'' None None ''burst'' 10) \<le> 0"
    by (simp add: LoadGenerator_init_def)
  have d: "duration (LoadGenerator_init ''http://example.com'' 2 0 ''GET'' None None ''burst'' 10) \<le> 0"
    by (simp add: LoadGenerator_init_def)
  have k: "list_all (clock_not_before 5) [Check 1 5 0, Check 0 6 0]"
    by simp
  have g: "collect (LoadGenerator_init ''http://example.com'' 2 0 ''GET'' None None ''burst'' 10)
        (Start 5 # [Check 1 5 0, Check 0 6 0])
     = Some (Inr \<lparr> results = [], errors = [], workers = [Stopped, Stopped], sent = [] \<rparr>, [])"
    by (simp add: collect_def LoadGenerator_init_def init_pool_def all_stopped_def
        replicate_two)
  from invalid_configuration_not_rejected
         [where lg = "LoadGenerator_init ''http://example.com'' 0 1 ''GET'' None None ''burst'' 10"
            and t = 5 and evs = "[]"]
       invalid_configuration_not_rejected
         [where lg = "LoadGenerator_init ''http://example.com'' 2 0 ''GET'' None None ''burst'' 10"
            and t = 5 and evs = "[Check 1 5 0, Check 0 6 0]"
            and r = "Inr \<lparr> results = [], errors = [], workers = [Stopped, Stopped], sent = [] \<rparr>"
            and rest = "[]"]
       c d k g
  show ?thesis by simp
qed

section \<open>Properties of the percentiles\<close>

lemma interpolation_bounds:
  fixes s :: "real list"
  assumes "sorted s" "0 \<le> h" "h \<le> real (length s - 1)" "s \<noteq> []"
  shows "s ! nat \<lfloor>h\<rfloor> \<le> s ! nat \<lfloor>h\<rfloor> + (h - real (nat \<lfloor>h\<rfloor>)) * (s ! min (nat \<lfloor>h\<rfloor> + 1) (length s - 1) - s ! nat \<lfloor>h\<rfloor>)"
    and "s ! nat \<lfloor>h\<rfloor> + (h - real (nat \<lfloor>h\<rfloor>)) * (s ! min (nat \<lfloor>h\<rfloor> + 1) (length s - 1) - s ! nat \<lfloor>h\<rfloor>) \<le> s ! min (nat \<lfloor>h\<rfloor> + 1) (length s - 1)"
proof -
  let ?lo = "nat \<lfloor>h\<rfloor>"
  let ?hi = "min (?lo + 1) (length s - 1)"
  let ?g = "h - real ?lo"
  from assms(2) have lo: "real ?lo = of_int \<lfloor>h\<rfloor>" by simp
  then have g0: "0 \<le> ?g" and g1: "?g \<le> 1" by linarith+
  from assms(3) lo have "real ?lo \<le> real (length s - 1)" by linarith
  then have lol: "?lo \<le> length s - 1" by simp
  from assms(4) have "?hi < length s" by (cases s) auto
  moreover from lol have "?lo \<le> ?hi" by simp
  ultimately have d: "s ! ?lo \<le> s ! ?hi" using assms(1) by (simp add: sorted_nth_mono)
  then have "0 \<le> ?g * (s ! ?hi - s ! ?lo)" using g0 by simp
  then show "s ! ?lo \<le> s ! ?lo + ?g * (s ! ?hi - s ! ?lo)" by simp
  have "?g * (s ! ?hi - s ! ?lo) \<le> 1 * (s ! ?hi - s ! ?lo)"
    using g1 d by (intro mult_right_mono) simp_all
  then show "s ! ?lo + ?g * (s ! ?hi - s ! ?lo) \<le> s ! ?hi" by simp
qed

lemma interpolation_mono:
  fixes s :: "real list"
  assumes "sorted s" "s \<noteq> []" "0 \<le> h1" "h1 \<le> h2" "h2 \<le> real (length s - 1)"
  shows "s ! nat \<lfloor>h1\<rfloor> + (h1 - real (nat \<lfloor>h1\<rfloor>)) * (s ! min (nat \<lfloor>h1\<rfloor> + 1) (length s - 1) - s ! nat \<lfloor>h1\<rfloor>)
       \<le> s ! nat \<lfloor>h2\<rfloor> + (h2 - real (nat \<lfloor>h2\<rfloor>)) * (s ! min (nat \<lfloor>h2\<rfloor> + 1) (length s - 1) - s ! nat \<lfloor>h2\<rfloor>)"
proof -
  let ?lo1 = "nat \<lfloor>h1\<rfloor>" and ?lo2 = "nat \<lfloor>h2\<rfloor>"
  let ?hi1 = "min (?lo1 + 1) (length s - 1)" and ?hi2 = "min (?lo2 + 1) (length s - 1)"
  from assms have h2: "0 \<le> h2" and h1: "h1 \<le> real (length s - 1)" by linarith+
  from assms(4) have le: "?lo1 \<le> ?lo2" by (simp add: floor_mono nat_mono)
  show ?thesis
  proof (cases "?lo1 = ?lo2")
    case True
    from assms(3) have lo: "real ?lo1 = of_int \<lfloor>h1\<rfloor>" by simp
    from h1 lo have "real ?lo1 \<le> real (length s - 1)" by linarith
    then have lol: "?lo1 \<le> length s - 1" by simp
    from assms(2) have "?hi1 < length s" by (cases s) auto
    moreover from lol have "?lo1 \<le> ?hi1" by simp
    ultimately have d: "s ! ?lo1 \<le> s ! ?hi1" using assms(1) by (simp add: sorted_nth_mono)
    have "(h1 - real ?lo1) * (s ! ?hi1 - s ! ?lo1) \<le> (h2 - real ?lo1) * (s ! ?hi1 - s ! ?lo1)"
      using assms(4) d by (intro mult_right_mono) simp_all
    then show ?thesis unfolding True[symmetric] by simp
  next
    case False
    with le have lt: "?lo1 + 1 \<le> ?lo2" by simp
    from h2 have lo: "real ?lo2 = of_int \<lfloor>h2\<rfloor>" by simp
    from assms(5) lo have "real ?lo2 \<le> real (length s - 1)" by linarith
    then have lol: "?lo2 \<le> length s - 1" by simp
    from assms(2) lol have "?lo2 < length s" by (cases s) auto
    moreover from lt have "?hi1 \<le> ?lo2" by simp
    ultimately have m: "s ! ?hi1 \<le> s ! ?lo2" using assms(1) by (simp add: sorted_nth_mono)
    from interpolation_bounds(2)[OF assms(1) assms(3) h1 assms(2)]
      interpolation_bounds(1)[OF assms(1) h2 assms(5) assms(2)] m
    show ?thesis by linarith
  qed
qed

lemma percentile_mono:
  assumes "a \<noteq> []" "0 \<le> p" "p \<le> q" "q \<le> 100"
  shows "percentile a p \<le> percentile a q"
proof -
  let ?s = "sort a"
  have "length ?s = length a" by simp
  with assms(1) have ne: "?s \<noteq> []" by (metis length_0_conv)
  have s: "sorted ?s" "?s \<noteq> []" using ne by simp_all
  let ?n = "real (length ?s - 1)"
  have n: "0 \<le> ?n" by simp
  have a: "0 \<le> ?n * (p / 100)" using assms(2) by simp
  have b: "?n * (p / 100) \<le> ?n * (q / 100)" using assms(3) by (intro mult_left_mono) simp_all
  have "?n * (q / 100) \<le> ?n * 1" using assms(4) by (intro mult_left_mono) simp_all
  then have c: "?n * (q / 100) \<le> ?n" by simp
  from interpolation_mono[OF s a b c] show ?thesis
    by (simp add: percentile_def Let_def)
qed

text \<open>
  C9. For every non-empty list of latencies the four percentiles that are reported,
  computed by the linear method in exact arithmetic, are in non-decreasing order, and so
  are their values rounded to hundredths, as printed.
\<close>

theorem percentiles_monotone:
  assumes "a \<noteq> []"
  shows "percentile a 50 \<le> percentile a 75 \<and> percentile a 75 \<le> percentile a 95 \<and>
         percentile a 95 \<le> percentile a 99 \<and>
         round_half_even (percentile a 50 * 100) \<le> round_half_even (percentile a 75 * 100) \<and>
         round_half_even (percentile a 75 * 100) \<le> round_half_even (percentile a 95 * 100) \<and>
         round_half_even (percentile a 95 * 100) \<le> round_half_even (percentile a 99 * 100)"
proof -
  have a: "percentile a 50 \<le> percentile a 75" by (rule percentile_mono[OF assms]) simp_all
  have b: "percentile a 75 \<le> percentile a 95" by (rule percentile_mono[OF assms]) simp_all
  have c: "percentile a 95 \<le> percentile a 99" by (rule percentile_mono[OF assms]) simp_all
  from a have a': "round_half_even (percentile a 50 * 100) \<le> round_half_even (percentile a 75 * 100)"
    by (intro round_half_even_mono) simp
  from b have b': "round_half_even (percentile a 75 * 100) \<le> round_half_even (percentile a 95 * 100)"
    by (intro round_half_even_mono) simp
  from c have c': "round_half_even (percentile a 95 * 100) \<le> round_half_even (percentile a 99 * 100)"
    by (intro round_half_even_mono) simp
  from a b c a' b' c' show ?thesis by simp
qed

theorem percentiles_monotone_witness:
  "[3, 1, 2, 10 :: real] \<noteq> [] \<and>
   percentile [3, 1, 2, 10] 50 = 5 / 2 \<and> percentile [3, 1, 2, 10] 75 = 19 / 4 \<and>
   percentile [3, 1, 2, 10] 95 = 179 / 20 \<and> percentile [3, 1, 2, 10] 99 = 979 / 100 \<and>
   percentile [3, 1, 2, 10] 50 \<le> percentile [3, 1, 2, 10] 75"
proof -
  have n: "[3, 1, 2, 10 :: real] \<noteq> []" by simp
  have v: "percentile [3, 1, 2, 10] 50 = 5 / 2" "percentile [3, 1, 2, 10] 75 = 19 / 4"
    "percentile [3, 1, 2, 10] 95 = 179 / 20" "percentile [3, 1, 2, 10] 99 = 979 / 100"
    by (simp_all add: percentile_def)
  from percentiles_monotone[OF n] v show ?thesis by simp
qed

end
